theory Spec2Isabelle
  imports Main "HOL-Library.Sublist"
begin

section \<open>Strings\<close>

text \<open>
  JavaScript strings are modelled as \<^typ>\<open>string\<close>: a list of 8-bit characters, a character
  outside ASCII being the bytes of its UTF-8 encoding. \<open>startsWith\<close> and \<open>includes\<close> compare
  code units one by one, so they agree with the byte-wise versions below on well-formed text.
  \<open>toLowerCase\<close> folds the letters \<open>A\<close> to \<open>Z\<close> and leaves every other byte as it is, and
  white space (\<open>trim\<close>, the class \<open>\s\<close>) is tab, line feed, vertical tab, form feed, carriage
  return and space: the model covers text whose letters with case and whose white space are
  ASCII.
\<close>

definition isUpper :: "char \<Rightarrow> bool" where
  "isUpper c = (65 \<le> (of_char c :: nat) \<and> (of_char c :: nat) \<le> 90)"

text \<open>An upper-case ASCII letter has bit 5 clear; setting it adds 32, which is its lower case.\<close>

definition lower_char :: "char \<Rightarrow> char" where
  "lower_char c =
     (if isUpper c
      then Char (digit0 c) (digit1 c) (digit2 c) (digit3 c) (digit4 c) True (digit6 c) (digit7 c)
      else c)"

definition toLowerCase :: "string \<Rightarrow> string" where
  "toLowerCase s = map lower_char s"

definition startsWith :: "string \<Rightarrow> string \<Rightarrow> bool" where
  "startsWith s p = prefix p s"

definition includes_str :: "string \<Rightarrow> string \<Rightarrow> bool" where
  "includes_str s p = sublist p s"

section \<open>Duration derived from the key name\<close>

text \<open>
  \<^verbatim>\<open>
  function parseDurationFromKeyName(keyName) {
      const lower = keyName.toLowerCase();
      if (lower.includes('lifetime')) return 999999999;
      if (lower.includes('1month') || lower.includes('-1m')) return 2592000;
      if (lower.includes('1week') || lower.includes('-1w')) return 604800;
      if (lower.includes('1day') || lower.includes('-1d')) return 86400;
      if (lower.includes('1year') || lower.includes('-1y')) return 31536000;
      return 999999999;
  }
  \<close>
\<close>

definition parseDurationFromKeyName :: "string \<Rightarrow> nat" where
  "parseDurationFromKeyName keyName =
     (let lower = toLowerCase keyName in
      if includes_str lower ''lifetime'' then 999999999
      else if includes_str lower ''1month'' \<or> includes_str lower ''-1m'' then 2592000
      else if includes_str lower ''1week'' \<or> includes_str lower ''-1w'' then 604800
      else if includes_str lower ''1day'' \<or> includes_str lower ''-1d'' then 86400
      else if includes_str lower ''1year'' \<or> includes_str lower ''-1y'' then 31536000
      else 999999999)"

section \<open>The restore job\<close>

text \<open>
  The snapshot served by \<^verbatim>\<open>GET /api/restore/status\<close> is the module-level variable
  \<^verbatim>\<open>
  let restoreStatus = {
      running: false, total: 0, processed: 0, success: 0, skipped: 0, failed: 0,
      currentKey: '', error: null
  };
  \<close>
  \<open>currentKey\<close> receives \<^verbatim>\<open>license.key\<close>, which is \<open>undefined\<close> for a record without a
  key: \<open>None\<close> below. \<open>error\<close> is \<open>null\<close> (\<open>None\<close>) or a message.
\<close>

record restore_status =
  running :: bool
  total :: nat
  processed :: nat
  success :: nat
  skipped :: nat
  failed :: nat
  currentKey :: "string option"
  error :: "string option"

text \<open>
  An entry of the \<open>licenses\<close> array of a request body is an object whose properties may be
  absent (\<open>None\<close>); \<open>parseBackupText\<close> fills all four.
\<close>

record license =
  key :: "string option"
  status :: "string option"
  level :: "string option"
  duration :: "nat option"

text \<open>
  \<open>req.body.licenses\<close> as the start handler tests it: a falsy value (absent, \<open>null\<close>, ...),
  a truthy value that is not an array, or an array.
\<close>

datatype licenses_body = Falsy | NonArray | Array "license list"

text \<open>
  The promise of \<open>makeKeyAuthRequest\<close> resolves with the decoded reply, of which the restore
  reads \<open>success\<close> and \<open>message\<close>, or rejects with an error (a transport failure, or
  \<^verbatim>\<open>Invalid response: ...\<close> when the body does not decode). A reply is an object with a
  truth value \<open>success\<close> and a \<open>message\<close> that is a string or absent.
\<close>

datatype outcome = Resolved bool "string option" | Rejected string

text \<open>What an \<open>await\<close> of the handler resumes with: a timer of \<open>sleep\<close>, or a request's outcome.\<close>

datatype settled = Timeout | Response outcome

text \<open>
  The \<open>await\<close> at which a started handler is suspended. \<open>AwaitAdd i retries\<close> is the request
  for item \<open>i\<close> inside the \<open>while\<close> loop, \<open>SleepRateLimit\<close> the 10 s wait, \<open>SleepError\<close> the
  5 s wait of the inner \<open>catch\<close>, \<open>SleepItem\<close> the 1.5 s between items, \<open>SleepBatch\<close> the extra
  5 s after every 20th item. \<open>retries\<close> is an \<^typ>\<open>int\<close>, as \<open>retries--\<close> does not stop at 0.
\<close>

datatype pc =
    AwaitWipeKeys
  | SleepAfterWipeKeys
  | AwaitWipeUsers
  | SleepAfterWipeUsers
  | AwaitAdd nat int
  | SleepRateLimit nat int
  | SleepError nat int
  | SleepItem nat
  | SleepBatch nat
  | Finished

record worker =
  licenses :: "license list"
  pc :: pc

definition typeError :: string where
  "typeError = ''Cannot read properties of undefined (reading 'toLowerCase')''"

text \<open>
  \<^verbatim>\<open>const duration = license.duration || parseDurationFromKeyName(key);\<close>
  A duration of 0 is falsy. Without a key, \<open>keyName.toLowerCase()\<close> throws a \<open>TypeError\<close>.
\<close>

definition resolve_duration :: "license \<Rightarrow> string + nat" where
  "resolve_duration l =
     (case duration l of
        Some d \<Rightarrow>
          if d \<noteq> 0 then Inr d
          else (case key l of None \<Rightarrow> Inl typeError | Some k \<Rightarrow> Inr (parseDurationFromKeyName k))
      | None \<Rightarrow>
          (case key l of None \<Rightarrow> Inl typeError | Some k \<Rightarrow> Inr (parseDurationFromKeyName k)))"

text \<open>
  The end of the \<open>try\<close> block, reached from both exits of the \<open>for\<close> loop:
  \<^verbatim>\<open>
  restoreStatus.running = false;
  restoreStatus.currentKey = 'Complete';
  \<close>
\<close>

definition finish :: "restore_status \<Rightarrow> restore_status" where
  "finish st = st\<lparr>running := False, currentKey := Some ''Complete''\<rparr>"

text \<open>
  The handler's \<open>catch\<close>:
  \<^verbatim>\<open>
  } catch (error) {
      restoreStatus.running = false;
      restoreStatus.error = error.message;
      if (!res.headersSent) { res.json({ success: false, error: error.message }); }
  }
  \<close>
\<close>

definition catch_handler :: "string \<Rightarrow> restore_status \<Rightarrow> restore_status" where
  "catch_handler msg st = st\<lparr>running := False, error := Some msg\<rparr>"

text \<open>
  From the test of the \<open>for\<close> loop at index \<open>i\<close> to the first \<open>await\<close> of the iteration:
  \<^verbatim>\<open>
  for (let i = 0; i < licenses.length; i++) {
      if (!restoreStatus.running) {
          restoreStatus.error = 'Stopped by user';
          break;
      }
      const license = licenses[i];
      const key = license.key;
      const duration = license.duration || parseDurationFromKeyName(key);
      const level = license.level || '1';
      restoreStatus.currentKey = key;
      restoreStatus.processed = i + 1;
      ...
      let retries = 3;
      let added = false;
      while (retries > 0 && !added) {
          try {
              const result = await makeKeyAuthRequest(params);
  \<close>
\<close>

definition loop_head :: "license list \<Rightarrow> nat \<Rightarrow> restore_status \<Rightarrow> restore_status \<times> pc" where
  "loop_head ls i st =
     (if i < length ls then
        if \<not> running st then (finish (st\<lparr>error := Some ''Stopped by user''\<rparr>), Finished)
        else (case resolve_duration (ls ! i) of
                Inl msg \<Rightarrow> (catch_handler msg st, Finished)
              | Inr d \<Rightarrow> (st\<lparr>currentKey := key (ls ! i), processed := i + 1\<rparr>, AwaitAdd i 3))
      else (finish st, Finished))"

text \<open>
  The test \<^verbatim>\<open>while (retries > 0 && !added)\<close> with \<open>added\<close> false, and what follows the loop:
  \<^verbatim>\<open>await sleep(1500);\<close>
\<close>

definition while_head :: "nat \<Rightarrow> int \<Rightarrow> pc" where
  "while_head i retries = (if retries > 0 then AwaitAdd i retries else SleepItem i)"

text \<open>
  The body of the inner \<open>try\<close> after the request has resolved:
  \<^verbatim>\<open>
  if (result.success) {
      restoreStatus.success++;
      added = true;
  } else if (result.message) {
      const msg = result.message.toLowerCase();
      if (msg.includes('already') || msg.includes('exists') || msg.includes('duplicate')) {
          restoreStatus.skipped++;
          added = true; // Don't retry
      } else if (msg.includes('rate') || msg.includes('limit') || msg.includes('slow')) {
          await sleep(10000);
          retries--;
      } else {
          restoreStatus.failed++;
          added = true; // Don't retry other errors
      }
  } else {
      restoreStatus.failed++;
      added = true;
  }
  \<close>
  An empty message is falsy.
\<close>

definition on_result :: "nat \<Rightarrow> int \<Rightarrow> bool \<Rightarrow> string option \<Rightarrow> restore_status \<Rightarrow> restore_status \<times> pc" where
  "on_result i retries ok message st =
     (if ok then (st\<lparr>success := success st + 1\<rparr>, SleepItem i)
      else (case message of
              None \<Rightarrow> (st\<lparr>failed := failed st + 1\<rparr>, SleepItem i)
            | Some m \<Rightarrow>
                if m = [] then (st\<lparr>failed := failed st + 1\<rparr>, SleepItem i)
                else (let msg = toLowerCase m in
                  if includes_str msg ''already'' \<or> includes_str msg ''exists''
                     \<or> includes_str msg ''duplicate''
                  then (st\<lparr>skipped := skipped st + 1\<rparr>, SleepItem i)
                  else if includes_str msg ''rate'' \<or> includes_str msg ''limit''
                     \<or> includes_str msg ''slow''
                  then (st, SleepRateLimit i retries)
                  else (st\<lparr>failed := failed st + 1\<rparr>, SleepItem i))))"

text \<open>
  The inner \<open>catch\<close> after its wait:
  \<^verbatim>\<open>
  } catch (e) {
      await sleep(5000);
      retries--;
      if (retries === 0) { restoreStatus.failed++; }
  }
  \<close>
\<close>

definition after_error_sleep :: "nat \<Rightarrow> int \<Rightarrow> restore_status \<Rightarrow> restore_status \<times> pc" where
  "after_error_sleep i retries st =
     (if retries - 1 = 0 then st\<lparr>failed := failed st + 1\<rparr> else st, while_head i (retries - 1))"

text \<open>
  After the wait between items:
  \<^verbatim>\<open>
  if ((i + 1) % 20 === 0) { await sleep(5000); }
  \<close>
  and then \<open>i++\<close> and the loop test.
\<close>

definition after_item_sleep :: "license list \<Rightarrow> nat \<Rightarrow> restore_status \<Rightarrow> restore_status \<times> pc" where
  "after_item_sleep ls i st =
     (if (i + 1) mod 20 = 0 then (st, SleepBatch i) else loop_head ls (i + 1) st)"

text \<open>
  One resumption of a suspended handler: the code between the \<open>await\<close> it is suspended at and
  the next one, run on the current value of \<open>restoreStatus\<close>. \<open>None\<close>: the handler is not
  waiting for this. The wipe requests are awaited outside the inner \<open>try\<close>, so a rejection
  reaches the handler's \<open>catch\<close>; a resolved reply is not looked at.
  \<^verbatim>\<open>
  if (wipeFirst) {
      restoreStatus.currentKey = 'Wiping database...';
      ...
      await makeKeyAuthRequest(wipeKeys);
      await sleep(2000); // Wait after wipe
      await makeKeyAuthRequest(wipeUsers);
      await sleep(3000); // Wait before starting adds
  }
  \<close>
\<close>

fun resume :: "license list \<Rightarrow> pc \<Rightarrow> settled \<Rightarrow> restore_status \<Rightarrow> (restore_status \<times> pc) option" where
  "resume ls AwaitWipeKeys (Response (Resolved ok m)) st = Some (st, SleepAfterWipeKeys)"
| "resume ls AwaitWipeKeys (Response (Rejected e)) st = Some (catch_handler e st, Finished)"
| "resume ls SleepAfterWipeKeys Timeout st = Some (st, AwaitWipeUsers)"
| "resume ls AwaitWipeUsers (Response (Resolved ok m)) st = Some (st, SleepAfterWipeUsers)"
| "resume ls AwaitWipeUsers (Response (Rejected e)) st = Some (catch_handler e st, Finished)"
| "resume ls SleepAfterWipeUsers Timeout st = Some (loop_head ls 0 st)"
| "resume ls (AwaitAdd i retries) (Response (Resolved ok m)) st = Some (on_result i retries ok m st)"
| "resume ls (AwaitAdd i retries) (Response (Rejected e)) st = Some (st, SleepError i retries)"
| "resume ls (SleepRateLimit i retries) Timeout st = Some (st, while_head i (retries - 1))"
| "resume ls (SleepError i retries) Timeout st = Some (after_error_sleep i retries st)"
| "resume ls (SleepItem i) Timeout st = Some (after_item_sleep ls i st)"
| "resume ls (SleepBatch i) Timeout st = Some (loop_head ls (i + 1) st)"
| "resume ls p x st = None"

section \<open>The server\<close>

text \<open>
  The state shared by the handlers: \<open>SELLER_KEY\<close>, \<open>restoreStatus\<close>, and the invocations of
  the \<^verbatim>\<open>POST /api/restore\<close> handler that went past their first \<open>await\<close>, in the order they
  were started. Every handler reads and writes the variable \<open>restoreStatus\<close>, not a copy.
\<close>

record server =
  SELLER_KEY :: "string option"
  restoreStatus :: restore_status
  workers :: "worker list"

datatype restore_response = RestoreStarted nat | RestoreError string

definition initial_status :: restore_status where
  "initial_status =
     \<lparr>running = False, total = 0, processed = 0, success = 0, skipped = 0, failed = 0,
      currentKey = Some [], error = None\<rparr>"

definition startup :: "string option \<Rightarrow> server" where
  "startup k = \<lparr>SELLER_KEY = k, restoreStatus = initial_status, workers = []\<rparr>"

definition connected :: "server \<Rightarrow> bool" where
  "connected sv = (case SELLER_KEY sv of None \<Rightarrow> False | Some k \<Rightarrow> k \<noteq> [])"

text \<open>The object assigned under \<^verbatim>\<open>// Reset status\<close>.\<close>

definition reset_status :: "nat \<Rightarrow> restore_status" where
  "reset_status n =
     \<lparr>running = True, total = n, processed = 0, success = 0, skipped = 0, failed = 0,
      currentKey = Some [], error = None\<rparr>"

text \<open>A \<open>throw\<close> before the response is sent: the \<open>catch\<close> runs and answers with the error.\<close>

definition throw_early :: "string \<Rightarrow> server \<Rightarrow> restore_response \<times> server" where
  "throw_early msg sv =
     (RestoreError msg, sv\<lparr>restoreStatus := catch_handler msg (restoreStatus sv)\<rparr>)"

text \<open>
  \<^verbatim>\<open>
  app.post('/api/restore', async (req, res) => {
      try {
          if (!SELLER_KEY) throw new Error('Not connected');
          if (restoreStatus.running) throw new Error('Restore already in progress');
          const { licenses, wipeFirst } = req.body;
          if (!licenses || !Array.isArray(licenses)) {
              throw new Error('Invalid licenses data');
          }
          // Reset status
          restoreStatus = {
              running: true, total: licenses.length, processed: 0, success: 0,
              skipped: 0, failed: 0, currentKey: '', error: null
          };
          // Send immediate response
          res.json({ success: true, message: 'Restore started', total: licenses.length });
          // Wipe if requested
          if (wipeFirst) { ... }
          for (...) { ... }
  \<close>
  The handler runs to its first \<open>await\<close>: the first wipe request, or the request for the
  first item; with an empty array it runs to its end.
\<close>

definition post_restore :: "licenses_body \<Rightarrow> bool \<Rightarrow> server \<Rightarrow> restore_response \<times> server" where
  "post_restore body wipeFirst sv =
     (if \<not> connected sv then throw_early ''Not connected'' sv
      else if running (restoreStatus sv) then throw_early ''Restore already in progress'' sv
      else (case body of
              Falsy \<Rightarrow> throw_early ''Invalid licenses data'' sv
            | NonArray \<Rightarrow> throw_early ''Invalid licenses data'' sv
            | Array ls \<Rightarrow>
                (let st0 = reset_status (length ls);
                     (st1, p) = (if wipeFirst
                                 then (st0\<lparr>currentKey := Some ''Wiping database...''\<rparr>, AwaitWipeKeys)
                                 else loop_head ls 0 st0)
                 in (RestoreStarted (length ls),
                     sv\<lparr>restoreStatus := st1,
                        workers := workers sv @ [\<lparr>licenses = ls, pc = p\<rparr>]\<rparr>))))"

text \<open>
  \<^verbatim>\<open>
  app.post('/api/restore/stop', (req, res) => {
      restoreStatus.running = false;
      res.json({ success: true });
  });
  app.get('/api/restore/status', (req, res) => { res.json(restoreStatus); });
  \<close>
\<close>

definition post_restore_stop :: "server \<Rightarrow> server" where
  "post_restore_stop sv = sv\<lparr>restoreStatus := (restoreStatus sv)\<lparr>running := False\<rparr>\<rparr>"

definition get_restore_status :: "server \<Rightarrow> restore_status" where
  "get_restore_status sv = restoreStatus sv"

text \<open>Handler number \<open>k\<close> resumes with what it awaited.\<close>

definition resume_worker :: "nat \<Rightarrow> settled \<Rightarrow> server \<Rightarrow> server option" where
  "resume_worker k x sv =
     (if k < length (workers sv) then
        (case resume (licenses (workers sv ! k)) (pc (workers sv ! k)) x (restoreStatus sv) of
           None \<Rightarrow> None
         | Some (st', p') \<Rightarrow>
             Some (sv\<lparr>restoreStatus := st',
                      workers := (workers sv)[k := (workers sv ! k)\<lparr>pc := p'\<rparr>]\<rparr>))
      else None)"

text \<open>
  The event loop runs one handler at a time, each up to its next \<open>await\<close>. An execution of
  the server is a list of events; \<open>None\<close> when an event cannot happen in the state reached.
\<close>

datatype event = Restore licenses_body bool | Stop | Resume nat settled

fun step :: "server \<Rightarrow> event \<Rightarrow> server option" where
  "step sv (Restore body wipeFirst) = Some (snd (post_restore body wipeFirst sv))"
| "step sv Stop = Some (post_restore_stop sv)"
| "step sv (Resume k x) = resume_worker k x sv"

fun exec :: "server \<Rightarrow> event list \<Rightarrow> server option" where
  "exec sv [] = Some sv"
| "exec sv (e # es) = (case step sv e of None \<Rightarrow> None | Some sv' \<Rightarrow> exec sv' es)"

section \<open>Parsing a backup\<close>

definition isSpace :: "char \<Rightarrow> bool" where
  "isSpace c = (c \<in> set [CHR 0x09, CHR 0x0A, CHR 0x0B, CHR 0x0C, CHR 0x0D, CHR 0x20])"

definition isDigit :: "char \<Rightarrow> bool" where
  "isDigit c = (48 \<le> (of_char c :: nat) \<and> (of_char c :: nat) \<le> 57)"

definition trim :: "string \<Rightarrow> string" where
  "trim s = rev (dropWhile isSpace (rev (dropWhile isSpace s)))"

text \<open>\<^verbatim>\<open>content.split('\n')\<close>: the pieces between line feeds, at least one.\<close>

fun split_newline :: "string \<Rightarrow> string list" where
  "split_newline [] = [[]]"
| "split_newline (c # cs) =
     (if c = CHR 0x0A then [] # split_newline cs
      else (case split_newline cs of [] \<Rightarrow> [[c]] | l # ls \<Rightarrow> (c # l) # ls))"

text \<open>
  \<^verbatim>\<open>trimmed.split(/\s{2,}/)\<close>: a separator is a maximal run of two or more white-space
  characters; a single one stays inside its piece.
\<close>

function split_spaces :: "string \<Rightarrow> string list" where
  "split_spaces [] = [[]]"
| "split_spaces (c # cs) =
     (if isSpace c \<and> (case cs of [] \<Rightarrow> False | d # ds \<Rightarrow> isSpace d)
      then [] # split_spaces (dropWhile isSpace cs)
      else (case split_spaces cs of [] \<Rightarrow> [[c]] | l # ls \<Rightarrow> (c # l) # ls))"
  by pat_completeness auto
termination
  by (relation "measure length") (auto simp: length_dropWhile_le less_Suc_eq_le)

text \<open>\<^verbatim>\<open>/^\d+$/.test(s)\<close>\<close>

definition all_digits :: "string \<Rightarrow> bool" where
  "all_digits s = (s \<noteq> [] \<and> list_all isDigit s)"

text \<open>
  The five border literals of \<open>parseBackupText\<close>, as the bytes the source file holds between
  the quotes: \<open>C3 A2 E2 80 9D\<close> followed by \<open>E2 82 AC\<close>, \<open>C5 92\<close>, \<open>E2 80 9A\<close>, \<open>E2 80 9D\<close> and
  \<open>C5 93\<close>.
\<close>

definition border_prefix :: string where
  "border_prefix = [CHR 0xC3, CHR 0xA2, CHR 0xE2, CHR 0x80, CHR 0x9D]"

definition border_literals :: "string list" where
  "border_literals =
     [border_prefix @ [CHR 0xE2, CHR 0x82, CHR 0xAC],
      border_prefix @ [CHR 0xC5, CHR 0x92],
      border_prefix @ [CHR 0xE2, CHR 0x80, CHR 0x9A],
      border_prefix @ [CHR 0xE2, CHR 0x80, CHR 0x9D],
      border_prefix @ [CHR 0xC5, CHR 0x93]]"

text \<open>
  \<^verbatim>\<open>
  if (!trimmed || trimmed.startsWith(<border 1>) || ... || trimmed.startsWith(<border 5>) ||
      trimmed.startsWith('Key') || trimmed.includes('license(s):') ||
      trimmed.includes('MAIN MENU') || trimmed.includes('Select option')) {
      continue;
  }
  \<close>
\<close>

definition skip_line :: "string \<Rightarrow> bool" where
  "skip_line trimmed =
     (trimmed = [] \<or> list_ex (startsWith trimmed) border_literals
      \<or> startsWith trimmed ''Key'' \<or> includes_str trimmed ''license(s):''
      \<or> includes_str trimmed ''MAIN MENU'' \<or> includes_str trimmed ''Select option'')"

text \<open>
  \<^verbatim>\<open>
  const parts = trimmed.split(/\s{2,}/);
  if (parts.length >= 1) {
      const key = parts[0].trim();
      if (key.toLowerCase().startsWith('soryn')) {
          let status = parts.length >= 2 ? parts[1].trim() : 'Not Used';
          let level = parts.length >= 3 && /^\d+$/.test(parts[2].trim()) ? parts[2].trim() : '1';
          const duration = parseDurationFromKeyName(key);
          licenses.push({ key, status, level, duration });
      }
  }
  \<close>
  The result of one line that is not skipped: a record, or nothing.
\<close>

definition parse_line :: "string \<Rightarrow> license option" where
  "parse_line trimmed =
     (case split_spaces trimmed of
        [] \<Rightarrow> None
      | p0 # rest \<Rightarrow>
          (let k = trim p0 in
           if startsWith (toLowerCase k) ''soryn'' then
             Some \<lparr>key = Some k,
                   status = Some (case rest of [] \<Rightarrow> ''Not Used'' | p1 # r \<Rightarrow> trim p1),
                   level = Some (case rest of
                                   p1 # p2 # r \<Rightarrow> if all_digits (trim p2) then trim p2 else ''1''
                                 | _ \<Rightarrow> ''1''),
                   duration = Some (parseDurationFromKeyName k)\<rparr>
           else None))"

text \<open>
  \<^verbatim>\<open>
  function parseBackupText(content) {
      const lines = content.split('\n');
      const licenses = [];
      for (const line of lines) {
          const trimmed = line.trim();
          if (...) continue;
          ...
      }
      return licenses;
  }
  \<close>
\<close>

definition parseBackupText :: "string \<Rightarrow> license list" where
  "parseBackupText content =
     concat (map (\<lambda>line. let trimmed = trim line in
                    if skip_line trimmed then []
                    else (case parse_line trimmed of None \<Rightarrow> [] | Some l \<Rightarrow> [l]))
                (split_newline content))"

text \<open>
  A document as \<open>JSON.parse\<close> returns it. Only the truthiness of a number is read below, so
  numbers are integers.
\<close>

datatype json =
    JNull | JBool bool | JNum int | JStr string | JArr "json list" | JObj "(string \<times> json) list"

text \<open>
  The value of a property read from a document: \<open>undefined\<close>, a part of the document, or
  the method \<open>Array.prototype.keys\<close>, which every array inherits.
\<close>

datatype jsvalue = Undefined | Json json | ArrayPrototypeKeys

text \<open>
  \<open>json.licenses\<close> and \<open>json.keys\<close>. Reading a property of \<open>null\<close> throws (\<open>None\<close>); an
  object gives its own property; an array has no \<open>licenses\<close> and inherits \<open>keys\<close>; a string,
  a number and a boolean have neither.
\<close>

fun read_licenses :: "json \<Rightarrow> jsvalue option" where
  "read_licenses JNull = None"
| "read_licenses (JObj props) =
     Some (case map_of props ''licenses'' of None \<Rightarrow> Undefined | Some v \<Rightarrow> Json v)"
| "read_licenses j = Some Undefined"

fun read_keys :: "json \<Rightarrow> jsvalue option" where
  "read_keys JNull = None"
| "read_keys (JObj props) =
     Some (case map_of props ''keys'' of None \<Rightarrow> Undefined | Some v \<Rightarrow> Json v)"
| "read_keys (JArr xs) = Some ArrayPrototypeKeys"
| "read_keys j = Some Undefined"

fun truthy :: "jsvalue \<Rightarrow> bool" where
  "truthy Undefined = False"
| "truthy ArrayPrototypeKeys = True"
| "truthy (Json JNull) = False"
| "truthy (Json (JBool b)) = b"
| "truthy (Json (JNum n)) = (n \<noteq> 0)"
| "truthy (Json (JStr s)) = (s \<noteq> [])"
| "truthy (Json (JArr xs)) = True"
| "truthy (Json (JObj props)) = True"

fun isArray :: "json \<Rightarrow> bool" where
  "isArray (JArr xs) = True"
| "isArray j = False"

text \<open>
  \<^verbatim>\<open>const licenses = json.licenses || json.keys || (Array.isArray(json) ? json : []);\<close>
  \<open>None\<close> when the expression throws.
\<close>

definition licenses_of_json :: "json \<Rightarrow> jsvalue option" where
  "licenses_of_json j =
     (case read_licenses j of
        None \<Rightarrow> None
      | Some a \<Rightarrow>
          if truthy a then Some a
          else (case read_keys j of
                  None \<Rightarrow> None
                | Some b \<Rightarrow>
                    if truthy b then Some b
                    else Some (Json (if isArray j then j else JArr []))))"

text \<open>
  The answer of \<^verbatim>\<open>POST /api/parse-backup\<close>: the \<open>licenses\<close> value with format \<open>json\<close>, the
  parsed records with format \<open>text\<close>, or an error.
\<close>

datatype parse_response = FormatJson jsvalue | FormatText "license list" | ParseError string

text \<open>
  \<^verbatim>\<open>
  app.post('/api/parse-backup', (req, res) => {
      try {
          const { content } = req.body;
          // Try JSON first
          try {
              const json = JSON.parse(content);
              const licenses = json.licenses || json.keys || (Array.isArray(json) ? json : []);
              return res.json({ success: true, licenses, format: 'json' });
          } catch (e) {
              // Not JSON, try text format
          }
          const licenses = parseBackupText(content);
          res.json({ success: true, licenses, format: 'text' });
      } catch (error) { res.json({ success: false, error: error.message }); }
  });
  \<close>
  \<open>JSON_parse\<close> is the library function, \<open>None\<close> when it throws; \<open>content\<close> is a string.
  The inner \<open>catch\<close> also takes the \<open>TypeError\<close> of reading a property of \<open>null\<close>.
\<close>

definition post_parse_backup :: "(string \<Rightarrow> json option) \<Rightarrow> string \<Rightarrow> parse_response" where
  "post_parse_backup JSON_parse content =
     (case JSON_parse content of
        None \<Rightarrow> FormatText (parseBackupText content)
      | Some j \<Rightarrow>
          (case licenses_of_json j of
             None \<Rightarrow> FormatText (parseBackupText content)
           | Some v \<Rightarrow> FormatJson v))"

section \<open>One handler on its own, and example inputs\<close>

text \<open>Consecutive resumptions of one handler, with no other handler in between.\<close>

fun resumes :: "license list \<Rightarrow> restore_status \<times> pc \<Rightarrow> settled list \<Rightarrow> (restore_status \<times> pc) option" where
  "resumes ls c [] = Some c"
| "resumes ls c (x # xs) =
     (case resume ls (snd c) x (fst c) of None \<Rightarrow> None | Some c' \<Rightarrow> resumes ls c' xs)"

text \<open>
  A failure message that \<open>on_result\<close> takes as rate limiting: it is not empty and, in lower
  case, holds none of the words of the duplicate test and one of \<open>rate\<close>, \<open>limit\<close>, \<open>slow\<close>.
\<close>

definition rate_limited :: "string \<Rightarrow> bool" where
  "rate_limited m =
     (m \<noteq> []
      \<and> \<not> (includes_str (toLowerCase m) ''already'' \<or> includes_str (toLowerCase m) ''exists''
             \<or> includes_str (toLowerCase m) ''duplicate'')
      \<and> (includes_str (toLowerCase m) ''rate'' \<or> includes_str (toLowerCase m) ''limit''
           \<or> includes_str (toLowerCase m) ''slow''))"

definition has_key :: "license \<Rightarrow> bool" where
  "has_key l = (key l \<noteq> None)"

definition lic_a :: license where
  "lic_a = \<lparr>key = Some ''Soryn-AAAAA-BBBBB'', status = Some ''Used'', level = Some ''2'',
            duration = Some 999999999\<rparr>"

definition lic_b :: license where
  "lic_b = \<lparr>key = Some ''Soryn-CCCCC-1month'', status = None, level = None, duration = None\<rparr>"

definition no_key :: license where
  "no_key = \<lparr>key = None, status = Some ''Used'', level = None, duration = None\<rparr>"

text \<open>A border of three U+2500 characters in UTF-8, and one of three of the source's first literal.\<close>

definition border_line :: string where
  "border_line =
     [CHR 0xE2, CHR 0x94, CHR 0x80, CHR 0xE2, CHR 0x94, CHR 0x80, CHR 0xE2, CHR 0x94, CHR 0x80]"

definition source_border_line :: string where
  "source_border_line = concat [hd border_literals, hd border_literals, hd border_literals]"

definition header_line :: string where
  "header_line = ''Key   Status   Level''"

definition data_line :: string where
  "data_line = ''Soryn-AAAAA-BBBBB  Used  2''"

definition table_text :: "string \<Rightarrow> string" where
  "table_text border =
     border @ [CHR 0x0A] @ header_line @ [CHR 0x0A] @ data_line @ [CHR 0x0A] @ border"

definition json_with_key :: json where
  "json_with_key = JObj [(''key'', JStr ''Soryn-AAAAA-BBBBB''), (''status'', JStr ''Used'')]"

definition json_without_key :: json where
  "json_without_key = JObj [(''status'', JStr ''Used''), (''level'', JStr ''2'')]"

definition backup_document :: json where
  "backup_document =
     JObj [(''exportDate'', JStr ''2024-01-15''),
           (''licenses'', JArr [json_with_key, json_without_key])]"

text \<open>The value of a property of an object is falsy or missing.\<close>

definition falsy_property :: "(string \<times> json) list \<Rightarrow> string \<Rightarrow> bool" where
  "falsy_property props name =
     (case map_of props name of None \<Rightarrow> True | Some v \<Rightarrow> \<not> truthy (Json v))"

text \<open>
  The upstream service, as the outcome of the request a handler is suspended at; with it, what
  the handler resumes with at each \<open>await\<close>.
\<close>

definition answer :: "(pc \<Rightarrow> outcome) \<Rightarrow> pc \<Rightarrow> settled" where
  "answer upstream p =
     (case p of
        AwaitWipeKeys \<Rightarrow> Response (upstream p)
      | AwaitWipeUsers \<Rightarrow> Response (upstream p)
      | AwaitAdd i retries \<Rightarrow> Response (upstream p)
      | _ \<Rightarrow> Timeout)"

text \<open>
  \<open>n\<close> resumptions of one handler against an upstream service, with no stop request and no
  other handler in between; a handler that has ended stays where it is. \<open>inputs\<close> lists what
  it resumed with.
\<close>

fun run :: "nat \<Rightarrow> (pc \<Rightarrow> outcome) \<Rightarrow> license list \<Rightarrow> restore_status \<times> pc \<Rightarrow> restore_status \<times> pc" where
  "run 0 upstream ls c = c"
| "run (Suc n) upstream ls c =
     (case resume ls (snd c) (answer upstream (snd c)) (fst c) of
        None \<Rightarrow> c
      | Some c' \<Rightarrow> run n upstream ls c')"

fun inputs :: "nat \<Rightarrow> (pc \<Rightarrow> outcome) \<Rightarrow> license list \<Rightarrow> restore_status \<times> pc \<Rightarrow> settled list" where
  "inputs 0 upstream ls c = []"
| "inputs (Suc n) upstream ls c =
     (case resume ls (snd c) (answer upstream (snd c)) (fst c) of
        None \<Rightarrow> []
      | Some c' \<Rightarrow> answer upstream (snd c) # inputs n upstream ls c')"

text \<open>An upstream service whose wipe calls answer with a failure and whose adds succeed.\<close>

definition failing_wipe :: "pc \<Rightarrow> outcome" where
  "failing_wipe p =
     (case p of
        AwaitAdd i retries \<Rightarrow> Resolved True None
      | _ \<Rightarrow> Resolved False (Some ''Seller key is invalid''))"

text \<open>Upstream services whose first wipe call, and whose second wipe call, cannot be reached.\<close>

definition rejecting_wipe :: "pc \<Rightarrow> outcome" where
  "rejecting_wipe p = Rejected ''connect ECONNREFUSED''"

definition rejecting_second_wipe :: "pc \<Rightarrow> outcome" where
  "rejecting_second_wipe p =
     (case p of
        AwaitWipeKeys \<Rightarrow> Resolved True (Some ''Successfully deleted all licenses'')
      | _ \<Rightarrow> Rejected ''connect ECONNREFUSED'')"

text \<open>The fields of a snapshot that the requests of one item leave alone.\<close>

definition same_job :: "restore_status \<Rightarrow> restore_status \<Rightarrow> bool" where
  "same_job st st' =
     (running st' = running st \<and> total st' = total st \<and> processed st' = processed st
      \<and> currentKey st' = currentKey st \<and> error st' = error st)"

section \<open>Invariants of a job\<close>

definition counted :: "restore_status \<Rightarrow> nat" where
  "counted st = success st + skipped st + failed st"

text \<open>
  What the snapshot of a job over \<open>ls\<close> satisfies while the job's handler, alone, is suspended
  at \<open>p\<close>: during item \<open>i\<close>, \<open>processed\<close> is \<open>i + 1\<close> and at most \<open>i\<close> outcomes are counted until
  the item's own outcome is.
\<close>

fun job_inv :: "license list \<Rightarrow> pc \<Rightarrow> restore_status \<Rightarrow> bool" where
  "job_inv ls (AwaitAdd i r) st =
     (total st = length ls \<and> i < length ls \<and> processed st = i + 1 \<and> counted st \<le> i)"
| "job_inv ls (SleepRateLimit i r) st =
     (total st = length ls \<and> i < length ls \<and> processed st = i + 1 \<and> counted st \<le> i)"
| "job_inv ls (SleepError i r) st =
     (total st = length ls \<and> i < length ls \<and> processed st = i + 1 \<and> counted st \<le> i)"
| "job_inv ls (SleepItem i) st =
     (total st = length ls \<and> i < length ls \<and> processed st = i + 1 \<and> counted st \<le> i + 1)"
| "job_inv ls (SleepBatch i) st =
     (total st = length ls \<and> i < length ls \<and> processed st = i + 1 \<and> counted st \<le> i + 1)"
| "job_inv ls Finished st = (counted st \<le> processed st \<and> processed st \<le> total st)"
| "job_inv ls p st = (total st = length ls \<and> processed st = 0 \<and> counted st = 0)"

text \<open>
  Every handler has ended; a start request would be accepted; and an execution in which a
  start request is accepted only when every earlier handler has ended.
\<close>

definition idle :: "server \<Rightarrow> bool" where
  "idle sv = list_all (\<lambda>w. pc w = Finished) (workers sv)"

definition accepted :: "licenses_body \<Rightarrow> server \<Rightarrow> bool" where
  "accepted body sv =
     (connected sv \<and> \<not> running (restoreStatus sv)
      \<and> (case body of Array ls \<Rightarrow> True | _ \<Rightarrow> False))"

fun exclusive :: "server \<Rightarrow> event list \<Rightarrow> bool" where
  "exclusive sv [] = True"
| "exclusive sv (e # es) =
     ((case e of Restore body w \<Rightarrow> idle sv \<or> \<not> accepted body sv | _ \<Rightarrow> True)
      \<and> (case step sv e of None \<Rightarrow> True | Some sv' \<Rightarrow> exclusive sv' es))"

definition live :: "server \<Rightarrow> nat \<Rightarrow> bool" where
  "live sv k = (k < length (workers sv) \<and> pc (workers sv ! k) \<noteq> Finished)"

definition server_inv :: "server \<Rightarrow> bool" where
  "server_inv sv =
     (counted (restoreStatus sv) \<le> processed (restoreStatus sv)
      \<and> processed (restoreStatus sv) \<le> total (restoreStatus sv)
      \<and> (\<forall>k. live sv k \<longrightarrow>
            job_inv (licenses (workers sv ! k)) (pc (workers sv ! k)) (restoreStatus sv))
      \<and> (\<forall>k j. live sv k \<longrightarrow> live sv j \<longrightarrow> j = k))"

section \<open>Properties of the duration derivation\<close>

text \<open>
  Claim C6. \<open>parseDurationFromKeyName\<close> gives, for every string, one of its five constants
  (it has no failing branch and no loop), and on the three keys of the specification:
  2592000 for \<open>Soryn-XXXX-1month\<close>, the unlimited value 999999999 for \<open>Soryn-XXXX-lifetime\<close>
  and for \<open>Soryn-XXXX\<close>, which has no marker.
\<close>

theorem parseDurationFromKeyName_total:
  "parseDurationFromKeyName keyName \<in> {999999999, 2592000, 604800, 86400, 31536000}
   \<and> parseDurationFromKeyName ''Soryn-XXXX-1month'' = 2592000
   \<and> parseDurationFromKeyName ''Soryn-XXXX-lifetime'' = 999999999
   \<and> parseDurationFromKeyName ''Soryn-XXXX'' = 999999999"
proof -
  have range: "parseDurationFromKeyName keyName \<in> {999999999, 2592000, 604800, 86400, 31536000}"
    by (simp add: parseDurationFromKeyName_def Let_def)
  have month: "parseDurationFromKeyName ''Soryn-XXXX-1month'' = 2592000"
    by (simp add: parseDurationFromKeyName_def toLowerCase_def lower_char_def isUpper_def
        includes_str_def sublist_Cons_right)
  have lifetime: "parseDurationFromKeyName ''Soryn-XXXX-lifetime'' = 999999999"
    by (simp add: parseDurationFromKeyName_def toLowerCase_def lower_char_def isUpper_def
        includes_str_def sublist_Cons_right)
  have plain: "parseDurationFromKeyName ''Soryn-XXXX'' = 999999999"
    by (simp add: parseDurationFromKeyName_def toLowerCase_def lower_char_def isUpper_def
        includes_str_def sublist_Cons_right)
  from range month lifetime plain show ?thesis by blast
qed

section \<open>Strings: helper facts\<close>

lemmas string_defs = toLowerCase_def lower_char_def isUpper_def includes_str_def startsWith_def
  sublist_Cons_right

lemma includes_lower:
  assumes "includes_str s p" and "toLowerCase p = p"
  shows "includes_str (toLowerCase s) p"
proof -
  from assms(1) obtain ps ss where "s = ps @ p @ ss"
    by (auto simp: includes_str_def sublist_def)
  then have "toLowerCase s = toLowerCase ps @ toLowerCase p @ toLowerCase ss"
    by (simp add: toLowerCase_def)
  with assms(2) show ?thesis
    by (simp add: includes_str_def)
qed

lemma includes_part:
  assumes "includes_str s p" and "includes_str p q"
  shows "includes_str s q"
  using assms unfolding includes_str_def sublist_def
  by (metis append.assoc)

section \<open>The example records\<close>

lemma resolve_lic_a: "resolve_duration lic_a = Inr 999999999"
  by (simp add: resolve_duration_def lic_a_def)

lemma resolve_lic_b: "resolve_duration lic_b = Inr 2592000"
  by (simp add: resolve_duration_def lic_b_def parseDurationFromKeyName_def string_defs)

lemma resolve_no_key: "resolve_duration no_key = Inl typeError"
  by (simp add: resolve_duration_def no_key_def)

lemma resolve_has_key: "has_key l \<Longrightarrow> \<exists>d. resolve_duration l = Inr d"
  by (auto simp: has_key_def resolve_duration_def split: option.splits)

lemma key_lic_a: "key lic_a = Some ''Soryn-AAAAA-BBBBB''"
  by (simp add: lic_a_def)

lemma key_lic_b: "key lic_b = Some ''Soryn-CCCCC-1month''"
  by (simp add: lic_b_def)

lemmas model_defs = post_restore_def throw_early_def catch_handler_def connected_def
  post_restore_stop_def resume_worker_def on_result_def after_item_sleep_def after_error_sleep_def
  while_head_def loop_head_def finish_def startup_def initial_status_def reset_status_def

lemmas example_facts = resolve_lic_a resolve_lic_b resolve_no_key key_lic_a key_lic_b

lemma start_a_b:
  "post_restore (Array [lic_a, lic_b]) False (startup (Some ''sellerkey'')) =
     (RestoreStarted 2,
      \<lparr>SELLER_KEY = Some ''sellerkey'',
        restoreStatus = \<lparr>running = True, total = 2, processed = 1, success = 0, skipped = 0,
          failed = 0, currentKey = Some ''Soryn-AAAAA-BBBBB'', error = None\<rparr>,
        workers = [\<lparr>licenses = [lic_a, lic_b], pc = AwaitAdd 0 3\<rparr>]\<rparr>)"
  by (simp add: model_defs example_facts)

section \<open>Starting a restore\<close>

text \<open>
  Claim C1. A start request that arrives while a job is running is answered with
  \<open>Restore already in progress\<close>, but it is not without effect: the \<open>throw\<close> is inside the
  handler's \<open>try\<close>, so its \<open>catch\<close> sets \<open>running\<close> to false and stores the message in \<open>error\<close>
  of the running job's snapshot. The other six fields and the handlers are left as they were.
\<close>

theorem restore_while_running_clears_running:
  assumes "connected sv" and "running (restoreStatus sv)"
  shows "post_restore body wipeFirst sv =
           (RestoreError ''Restore already in progress'',
            sv\<lparr>restoreStatus := (restoreStatus sv)\<lparr>running := False,
                                   error := Some ''Restore already in progress''\<rparr>\<rparr>)"
  using assms by (simp add: post_restore_def throw_early_def catch_handler_def)

theorem second_start_alters_first_job:
  "post_restore (Array [lic_a]) False
     (snd (post_restore (Array [lic_a, lic_b]) False (startup (Some ''sellerkey'')))) =
     (RestoreError ''Restore already in progress'',
      \<lparr>SELLER_KEY = Some ''sellerkey'',
        restoreStatus = \<lparr>running = False, total = 2, processed = 1, success = 0, skipped = 0,
          failed = 0, currentKey = Some ''Soryn-AAAAA-BBBBB'',
          error = Some ''Restore already in progress''\<rparr>,
        workers = [\<lparr>licenses = [lic_a, lic_b], pc = AwaitAdd 0 3\<rparr>]\<rparr>)"
  using restore_while_running_clears_running
    [of "snd (post_restore (Array [lic_a, lic_b]) False (startup (Some ''sellerkey'')))"
        "Array [lic_a]" False]
  by (simp add: start_a_b connected_def)

text \<open>
  What follows for the first job: when its request for the first item is answered, it counts
  the item, finds \<open>running\<close> false at the next loop test and stops as if the user had asked,
  with the second item never sent.
\<close>

lemma rejected_start_cancels_job:
  "exec (startup (Some ''sellerkey''))
     [Restore (Array [lic_a, lic_b]) False, Restore (Array [lic_a]) False,
      Resume 0 (Response (Resolved True None)), Resume 0 Timeout] =
   Some \<lparr>SELLER_KEY = Some ''sellerkey'',
        restoreStatus = \<lparr>running = False, total = 2, processed = 1, success = 1, skipped = 0,
          failed = 0, currentKey = Some ''Complete'', error = Some ''Stopped by user''\<rparr>,
        workers = [\<lparr>licenses = [lic_a, lic_b], pc = Finished\<rparr>]\<rparr>"
  by (simp add: model_defs example_facts)

text \<open>
  Claim C5. The start handler rejects a \<open>licenses\<close> value that is falsy or not an array with
  \<open>Invalid licenses data\<close>, when the server is connected and no job is running; the handlers
  and the fields \<open>running\<close>, \<open>total\<close>, \<open>processed\<close>, \<open>success\<close>, \<open>skipped\<close>, \<open>failed\<close> and
  \<open>currentKey\<close> of the snapshot are as before.
\<close>

theorem invalid_licenses_rejected:
  assumes "connected sv" and "\<not> running (restoreStatus sv)"
    and "body = Falsy \<or> body = NonArray"
  shows "fst (post_restore body wipeFirst sv) = RestoreError ''Invalid licenses data''
    \<and> workers (snd (post_restore body wipeFirst sv)) = workers sv
    \<and> running (restoreStatus (snd (post_restore body wipeFirst sv))) = running (restoreStatus sv)
    \<and> total (restoreStatus (snd (post_restore body wipeFirst sv))) = total (restoreStatus sv)
    \<and> processed (restoreStatus (snd (post_restore body wipeFirst sv))) = processed (restoreStatus sv)
    \<and> success (restoreStatus (snd (post_restore body wipeFirst sv))) = success (restoreStatus sv)
    \<and> skipped (restoreStatus (snd (post_restore body wipeFirst sv))) = skipped (restoreStatus sv)
    \<and> failed (restoreStatus (snd (post_restore body wipeFirst sv))) = failed (restoreStatus sv)
    \<and> currentKey (restoreStatus (snd (post_restore body wipeFirst sv))) = currentKey (restoreStatus sv)"
  using assms by (auto simp add: post_restore_def throw_early_def catch_handler_def)

theorem invalid_licenses_rejected_example:
  "fst (post_restore NonArray True (startup (Some ''sellerkey''))) = RestoreError ''Invalid licenses data''
   \<and> workers (snd (post_restore NonArray True (startup (Some ''sellerkey'')))) = []
   \<and> total (restoreStatus (snd (post_restore NonArray True (startup (Some ''sellerkey''))))) = 0
   \<and> currentKey (restoreStatus (snd (post_restore NonArray True (startup (Some ''sellerkey''))))) = Some []"
  using invalid_licenses_rejected [of "startup (Some ''sellerkey'')" NonArray True]
  by (simp add: connected_def startup_def initial_status_def)

text \<open>
  Against C5 as stated: an empty array is accepted (the job is reset and ends at once), an
  array with a record that has no key is accepted, and the rejection of a value that is no
  array writes its message into \<open>error\<close> of the snapshot.
\<close>

theorem empty_and_keyless_lists_accepted:
  "post_restore (Array []) False (startup (Some ''sellerkey'')) =
     (RestoreStarted 0,
      \<lparr>SELLER_KEY = Some ''sellerkey'',
        restoreStatus = \<lparr>running = False, total = 0, processed = 0, success = 0, skipped = 0,
          failed = 0, currentKey = Some ''Complete'', error = None\<rparr>,
        workers = [\<lparr>licenses = [], pc = Finished\<rparr>]\<rparr>)
   \<and> fst (post_restore (Array [no_key]) True (startup (Some ''sellerkey''))) = RestoreStarted 1
   \<and> error (restoreStatus (snd (post_restore Falsy False (startup (Some ''sellerkey'')))))
       = Some ''Invalid licenses data''
   \<and> error (restoreStatus (startup (Some ''sellerkey''))) = None"
  by (simp add: model_defs example_facts)

section \<open>One item\<close>

lemma on_result_rate_limited:
  "rate_limited m \<Longrightarrow> on_result i r False (Some m) st = (st, SleepRateLimit i r)"
  by (simp add: rate_limited_def on_result_def Let_def)

lemma rate_limit_message: "rate_limited ''Rate limit exceeded, slow down''"
  by (simp add: rate_limited_def string_defs)

text \<open>
  Claim C2. An item whose three requests are all answered with a rate-limit failure: each
  answer leaves the snapshot as it is and is followed by the 10 s wait, after which one
  attempt is gone, and after the third the \<open>while\<close> loop ends with the snapshot as it was
  when the item's first request was sent.
  No counter has moved, \<open>failed\<close> included: the branch has no counterpart of the
  \<^verbatim>\<open>if (retries === 0) restoreStatus.failed++\<close> of the \<open>catch\<close> branch.
\<close>

theorem rate_limited_item_is_not_counted:
  assumes "rate_limited m1" and "rate_limited m2" and "rate_limited m3"
  shows "resume ls (AwaitAdd i retries) (Response (Resolved False (Some m1))) st
           = Some (st, SleepRateLimit i retries)
       \<and> resume ls (SleepRateLimit i retries) Timeout st
           = Some (st, if retries - 1 > 0 then AwaitAdd i (retries - 1) else SleepItem i)
       \<and> resumes ls (st, AwaitAdd i 3)
           [Response (Resolved False (Some m1)), Timeout,
            Response (Resolved False (Some m2)), Timeout,
            Response (Resolved False (Some m3)), Timeout] = Some (st, SleepItem i)"
  using assms by (simp add: on_result_rate_limited while_head_def)

theorem rate_limited_item_is_not_counted_example:
  "resumes [lic_a] (reset_status 1\<lparr>currentKey := Some ''Soryn-AAAAA-BBBBB'', processed := 1\<rparr>, AwaitAdd 0 3)
     [Response (Resolved False (Some ''Rate limit exceeded, slow down'')), Timeout,
      Response (Resolved False (Some ''Rate limit exceeded, slow down'')), Timeout,
      Response (Resolved False (Some ''Rate limit exceeded, slow down'')), Timeout] =
   Some (\<lparr>running = True, total = 1, processed = 1, success = 0, skipped = 0, failed = 0,
           currentKey = Some ''Soryn-AAAAA-BBBBB'', error = None\<rparr>, SleepItem 0)"
proof -
  have eq: "reset_status 1\<lparr>currentKey := Some ''Soryn-AAAAA-BBBBB'', processed := 1\<rparr> =
      \<lparr>running = True, total = 1, processed = 1, success = 0, skipped = 0, failed = 0,
       currentKey = Some ''Soryn-AAAAA-BBBBB'', error = None\<rparr>"
    by (simp add: reset_status_def)
  from rate_limited_item_is_not_counted
    [OF rate_limit_message rate_limit_message rate_limit_message, of "[lic_a]" 0 3
      "reset_status 1\<lparr>currentKey := Some ''Soryn-AAAAA-BBBBB'', processed := 1\<rparr>",
      THEN conjunct2, THEN conjunct2]
  show ?thesis
    by (simp only: eq)
qed

text \<open>The sibling path: three rejected requests do count the item as failed.\<close>

lemma rejected_item_is_failed:
  "resumes ls (st, AwaitAdd i 3)
     [Response (Rejected e1), Timeout, Response (Rejected e2), Timeout,
      Response (Rejected e3), Timeout] = Some (st\<lparr>failed := failed st + 1\<rparr>, SleepItem i)"
  by (simp add: after_error_sleep_def while_head_def)

text \<open>The whole job of one such item, from the start request to its end.\<close>

lemma rate_limited_job:
  "exec (startup (Some ''sellerkey''))
     [Restore (Array [lic_a]) False,
      Resume 0 (Response (Resolved False (Some ''Rate limit exceeded, slow down''))), Resume 0 Timeout,
      Resume 0 (Response (Resolved False (Some ''Rate limit exceeded, slow down''))), Resume 0 Timeout,
      Resume 0 (Response (Resolved False (Some ''Rate limit exceeded, slow down''))), Resume 0 Timeout,
      Resume 0 Timeout] =
   Some \<lparr>SELLER_KEY = Some ''sellerkey'',
        restoreStatus = \<lparr>running = False, total = 1, processed = 1, success = 0, skipped = 0,
          failed = 0, currentKey = Some ''Complete'', error = None\<rparr>,
        workers = [\<lparr>licenses = [lic_a], pc = Finished\<rparr>]\<rparr>"
  by (simp add: model_defs example_facts on_result_rate_limited [OF rate_limit_message]
      del: on_result_def)

lemma after_item_sleep_pc:
  "snd (after_item_sleep ls i st) \<in> {SleepBatch i, AwaitAdd (Suc i) 3, Finished}"
  by (auto simp: after_item_sleep_def loop_head_def split: sum.splits)

text \<open>
  Claim C7. A failure reply whose message contains \<open>already exists\<close> adds one to \<open>skipped\<close> and
  changes nothing else of the snapshot; the handler leaves the \<open>while\<close> loop for the wait
  between items, after which it is at the next item, at the batch wait or at its end, so the
  item is not requested again. A resumption that leads to a request (the first of an item or
  a retry) changes none of the three counters, so nothing was counted for the item before.
\<close>

theorem already_exists_is_skipped:
  assumes "includes_str m ''already exists''"
  shows "resume ls (AwaitAdd i retries) (Response (Resolved False (Some m))) st
           = Some (st\<lparr>skipped := skipped st + 1\<rparr>, SleepItem i)
       \<and> snd (after_item_sleep ls i st') \<in> {SleepBatch i, AwaitAdd (Suc i) 3, Finished}
       \<and> (resume ls p x st0 = Some (st1, AwaitAdd j r)
            \<longrightarrow> success st1 = success st0 \<and> skipped st1 = skipped st0 \<and> failed st1 = failed st0)"
proof -
  have "includes_str ''already exists'' ''already''"
    by (simp add: string_defs)
  with assms have "includes_str m ''already''"
    by (rule includes_part)
  then have low: "includes_str (toLowerCase m) ''already''"
    by (rule includes_lower) (simp add: string_defs)
  from assms have "m \<noteq> []"
    by (auto simp: includes_str_def)
  with low have skip: "resume ls (AwaitAdd i retries) (Response (Resolved False (Some m))) st
           = Some (st\<lparr>skipped := skipped st + 1\<rparr>, SleepItem i)"
    by (simp add: on_result_def Let_def)
  have before: "success st1 = success st0 \<and> skipped st1 = skipped st0 \<and> failed st1 = failed st0"
    if "resume ls p x st0 = Some (st1, AwaitAdd j r)"
    using that
    by (cases "(ls, p, x, st0)" rule: resume.cases)
       (auto simp: loop_head_def on_result_def Let_def after_error_sleep_def while_head_def
          after_item_sleep_def finish_def catch_handler_def
          split: if_splits sum.splits option.splits)
  from skip before after_item_sleep_pc show ?thesis
    by blast
qed

theorem already_exists_is_skipped_example:
  "resume [lic_a] (AwaitAdd 0 3) (Response (Resolved False (Some ''Key already exists'')))
     (reset_status 1) = Some (reset_status 1\<lparr>skipped := 1\<rparr>, SleepItem 0)
   \<and> resume [lic_a] (SleepError 0 3) Timeout (reset_status 1)
       = Some (reset_status 1, AwaitAdd 0 2)
   \<and> success (reset_status 1) = 0 \<and> skipped (reset_status 1) = 0 \<and> failed (reset_status 1) = 0"
  using already_exists_is_skipped [where m = "''Key already exists''" and ls = "[lic_a]"
      and i = 0 and retries = 3 and st = "reset_status 1" and p = "SleepError 0 3"
      and x = Timeout and ?st0.0 = "reset_status 1" and ?st1.0 = "reset_status 1" and j = 0
      and r = 2]
  by (simp add: string_defs reset_status_def after_error_sleep_def while_head_def)

section \<open>The end of a job\<close>

lemma loop_head_Finished:
  assumes "list_all has_key ls" and "loop_head ls i st = (st', Finished)"
  shows "currentKey st' = Some ''Complete'' \<and> \<not> running st'"
proof (cases "i < length ls \<and> running st")
  case True
  with assms(1) have "has_key (ls ! i)"
    by (simp add: list_all_length)
  then obtain d where "resolve_duration (ls ! i) = Inr d"
    using resolve_has_key by blast
  with True assms(2) show ?thesis
    by (simp add: loop_head_def)
next
  case False
  with assms(2) show ?thesis
    by (auto simp: loop_head_def finish_def split: if_splits)
qed

lemma stopped_trace:
  "exec (startup (Some ''sellerkey''))
     [Restore (Array [lic_a, lic_b]) False, Stop,
      Resume 0 (Response (Resolved True None)), Resume 0 Timeout] =
   Some \<lparr>SELLER_KEY = Some ''sellerkey'',
        restoreStatus = \<lparr>running = False, total = 2, processed = 1, success = 1, skipped = 0,
          failed = 0, currentKey = Some ''Complete'', error = Some ''Stopped by user''\<rparr>,
        workers = [\<lparr>licenses = [lic_a, lic_b], pc = Finished\<rparr>]\<rparr>"
  by (simp add: model_defs example_facts)

text \<open>
  Claim C10. The \<open>for\<close> loop is left by its test or by the \<open>break\<close> of the cancellation
  check, and both continue with the last two assignments of the \<open>try\<close> block. So, for
  records that have keys: whenever a resumption inside or at the entry of the loop ends the
  handler, \<open>currentKey\<close> is \<open>Complete\<close> and \<open>running\<close> is false; at a loop test that finds
  \<open>running\<close> false with items left, the handler stores \<open>Stopped by user\<close>, sets \<open>currentKey\<close>
  to \<open>Complete\<close> and leaves \<open>processed\<close> and the counters as they are; and there is an
  execution that ends with \<open>currentKey\<close> \<open>Complete\<close> and \<open>processed\<close> below \<open>total\<close>.
\<close>

theorem loop_exit_sets_Complete:
  "(list_all has_key ls \<and> p \<noteq> AwaitWipeKeys \<and> p \<noteq> AwaitWipeUsers
      \<and> resume ls p x st = Some (st', Finished)
      \<longrightarrow> currentKey st' = Some ''Complete'' \<and> \<not> running st')
   \<and> (i < length ls \<and> \<not> running st
      \<longrightarrow> loop_head ls i st =
            (st\<lparr>error := Some ''Stopped by user'', running := False,
                currentKey := Some ''Complete''\<rparr>, Finished))
   \<and> (length ls \<le> j
      \<longrightarrow> loop_head ls j st = (st\<lparr>running := False, currentKey := Some ''Complete''\<rparr>, Finished))
   \<and> (\<exists>evs sv. exec (startup (Some ''sellerkey'')) evs = Some sv
         \<and> list_all (\<lambda>w. pc w = Finished) (workers sv)
         \<and> currentKey (restoreStatus sv) = Some ''Complete''
         \<and> error (restoreStatus sv) = Some ''Stopped by user''
         \<and> processed (restoreStatus sv) < total (restoreStatus sv))"
proof -
  have exits: "currentKey st' = Some ''Complete'' \<and> \<not> running st'"
    if "list_all has_key ls" "p \<noteq> AwaitWipeKeys" "p \<noteq> AwaitWipeUsers"
      "resume ls p x st = Some (st', Finished)"
    using that
    by (cases "(ls, p, x, st)" rule: resume.cases)
       (auto simp: on_result_def Let_def after_error_sleep_def while_head_def
          after_item_sleep_def dest: loop_head_Finished split: if_splits option.splits)
  have stop: "loop_head ls i st =
      (st\<lparr>error := Some ''Stopped by user'', running := False,
          currentKey := Some ''Complete''\<rparr>, Finished)"
    if "i < length ls" "\<not> running st"
    using that by (simp add: loop_head_def finish_def)
  have ended: "loop_head ls j st = (st\<lparr>running := False, currentKey := Some ''Complete''\<rparr>, Finished)"
    if "length ls \<le> j"
    using that by (simp add: loop_head_def finish_def)
  have "\<exists>evs sv. exec (startup (Some ''sellerkey'')) evs = Some sv
         \<and> list_all (\<lambda>w. pc w = Finished) (workers sv)
         \<and> currentKey (restoreStatus sv) = Some ''Complete''
         \<and> error (restoreStatus sv) = Some ''Stopped by user''
         \<and> processed (restoreStatus sv) < total (restoreStatus sv)"
    by (rule exI, rule exI, rule conjI, rule stopped_trace) simp
  with exits stop ended show ?thesis
    by blast
qed

theorem cancelled_run_is_Complete:
  "resume [lic_a, lic_b] (SleepItem 0) Timeout
     \<lparr>running = False, total = 2, processed = 1, success = 1, skipped = 0, failed = 0,
      currentKey = Some ''Soryn-AAAAA-BBBBB'', error = None\<rparr> =
   Some (\<lparr>running = False, total = 2, processed = 1, success = 1, skipped = 0, failed = 0,
      currentKey = Some ''Complete'', error = Some ''Stopped by user''\<rparr>, Finished)
   \<and> loop_head [lic_a, lic_b] 1
     \<lparr>running = False, total = 2, processed = 1, success = 1, skipped = 0, failed = 0,
      currentKey = Some ''Soryn-AAAAA-BBBBB'', error = None\<rparr> =
   (\<lparr>running = False, total = 2, processed = 1, success = 1, skipped = 0, failed = 0,
      currentKey = Some ''Complete'', error = Some ''Stopped by user''\<rparr>, Finished)
   \<and> loop_head [lic_a, lic_b] 2
     \<lparr>running = False, total = 2, processed = 1, success = 1, skipped = 0, failed = 0,
      currentKey = Some ''Soryn-AAAAA-BBBBB'', error = None\<rparr> =
   (\<lparr>running = False, total = 2, processed = 1, success = 1, skipped = 0, failed = 0,
      currentKey = Some ''Complete'', error = None\<rparr>, Finished)"
  using loop_exit_sets_Complete [of "[lic_a, lic_b]" "SleepItem 0" Timeout
      "\<lparr>running = False, total = 2, processed = 1, success = 1, skipped = 0, failed = 0,
        currentKey = Some ''Soryn-AAAAA-BBBBB'', error = None\<rparr>"
      "\<lparr>running = False, total = 2, processed = 1, success = 1, skipped = 0, failed = 0,
        currentKey = Some ''Complete'', error = Some ''Stopped by user''\<rparr>" 1 2]
  by (simp add: after_item_sleep_def)

section \<open>A handler run to its end\<close>

text \<open>
  Alone and not stopped, a handler over records that have keys comes to its end, whatever the
  upstream service answers: every item takes at most three requests, and the loop reaches
  every item. What holds of \<open>run\<close> holds of the server's executions, by \<open>exec_run\<close>.
\<close>

lemma run_stuck:
  "resume ls (snd c) (answer u (snd c)) (fst c) = None \<Longrightarrow> run n u ls c = c"
  by (cases n) auto

lemma run_add: "run (n + m) u ls c = run m u ls (run n u ls c)"
  by (induction n arbitrary: c) (auto simp: run_stuck split: option.splits)

lemma same_job_refl: "same_job st st"
  by (simp add: same_job_def)

lemma same_job_trans: "same_job a b \<Longrightarrow> same_job b c \<Longrightarrow> same_job a c"
  by (simp add: same_job_def)

lemma on_result_cases:
  assumes "on_result i r ok m st = (st', p)"
  shows "same_job st st' \<and> (p = SleepItem i \<or> (p = SleepRateLimit i r \<and> st' = st))"
  using assms
  by (auto simp: on_result_def Let_def same_job_def split: if_splits option.splits)

lemma attempt:
  assumes "0 < r"
  shows "\<exists>n st'. same_job st st' \<and>
           (run n u ls (st, AwaitAdd i r) = (st', SleepItem i)
            \<or> (run n u ls (st, AwaitAdd i r) = (st', AwaitAdd i (r - 1)) \<and> 0 < r - 1))"
proof (cases "u (AwaitAdd i r)")
  case (Resolved ok m)
  obtain st1 p1 where res: "on_result i r ok m st = (st1, p1)"
    by (cases "on_result i r ok m st")
  from on_result_cases [OF res]
  have sj: "same_job st st1" and alt: "p1 = SleepItem i \<or> (p1 = SleepRateLimit i r \<and> st1 = st)"
    by simp_all
  from alt show ?thesis
  proof
    assume "p1 = SleepItem i"
    with res Resolved have "run 1 u ls (st, AwaitAdd i r) = (st1, SleepItem i)"
      by (simp add: answer_def)
    with sj show ?thesis by blast
  next
    assume a: "p1 = SleepRateLimit i r \<and> st1 = st"
    with res Resolved have "run 2 u ls (st, AwaitAdd i r) = (st, while_head i (r - 1))"
      by (simp add: answer_def numeral_2_eq_2)
    then show ?thesis
      using same_job_refl [of st] by (cases "0 < r - 1") (auto simp: while_head_def)
  qed
next
  case (Rejected e)
  obtain st1 where st1: "st1 = (if r - 1 = 0 then st\<lparr>failed := failed st + 1\<rparr> else st)"
    by simp
  then have sj: "same_job st st1"
    by (simp add: same_job_def)
  from Rejected st1 have "run 2 u ls (st, AwaitAdd i r) = (st1, while_head i (r - 1))"
    by (simp add: answer_def numeral_2_eq_2 after_error_sleep_def)
  with sj show ?thesis
    by (cases "0 < r - 1") (auto simp: while_head_def)
qed

lemma item_completes:
  assumes "0 < r"
  shows "\<exists>n st'. run n u ls (st, AwaitAdd i r) = (st', SleepItem i) \<and> same_job st st'"
  using assms
proof (induction "nat r" arbitrary: r st)
  case 0
  then show ?case by simp
next
  case (Suc k)
  from attempt [OF Suc.prems, of st u ls i]
  obtain n st1 where sj: "same_job st st1"
    and alt: "run n u ls (st, AwaitAdd i r) = (st1, SleepItem i)
       \<or> (run n u ls (st, AwaitAdd i r) = (st1, AwaitAdd i (r - 1)) \<and> 0 < r - 1)"
    by blast
  from alt show ?case
  proof
    assume "run n u ls (st, AwaitAdd i r) = (st1, SleepItem i)"
    with sj show ?thesis by blast
  next
    assume a: "run n u ls (st, AwaitAdd i r) = (st1, AwaitAdd i (r - 1)) \<and> 0 < r - 1"
    from Suc.hyps(2) have "k = nat (r - 1)" by simp
    from Suc.hyps(1) [OF this, of st1] a
    obtain m st2 where "run m u ls (st1, AwaitAdd i (r - 1)) = (st2, SleepItem i)"
      and "same_job st1 st2"
      by blast
    with a sj have "run (n + m) u ls (st, AwaitAdd i r) = (st2, SleepItem i)" "same_job st st2"
      by (auto simp: run_add intro: same_job_trans)
    then show ?thesis by blast
  qed
qed

lemma item_sleep_completes:
  "\<exists>n. run n u ls (st, SleepItem i) = loop_head ls (Suc i) st"
proof (cases "(i + 1) mod 20 = 0")
  case True
  then have "run 2 u ls (st, SleepItem i) = loop_head ls (Suc i) st"
    by (simp add: numeral_2_eq_2 answer_def after_item_sleep_def)
  then show ?thesis ..
next
  case False
  then have "run 1 u ls (st, SleepItem i) = loop_head ls (Suc i) st"
    by (simp add: answer_def after_item_sleep_def)
  then show ?thesis ..
qed

lemma loop_completes:
  assumes "list_all has_key ls" and "running st" and "processed st = i" and "i \<le> length ls"
  shows "\<exists>n st'. run n u ls (loop_head ls i st) = (st', Finished)
           \<and> processed st' = length ls \<and> total st' = total st \<and> \<not> running st'
           \<and> currentKey st' = Some ''Complete'' \<and> error st' = error st"
  using assms(2-)
proof (induction "length ls - i" arbitrary: i st)
  case 0
  then have "run 0 u ls (loop_head ls i st) = (finish st, Finished)"
    by (simp add: loop_head_def)
  with 0 show ?case
    by (intro exI [of _ 0] exI [of _ "finish st"]) (simp add: finish_def)
next
  case (Suc d)
  then have lt: "i < length ls" by simp
  with assms(1) have "has_key (ls ! i)"
    by (simp add: list_all_length)
  then obtain dur where "resolve_duration (ls ! i) = Inr dur"
    using resolve_has_key by blast
  with lt Suc.prems have head:
    "loop_head ls i st = (st\<lparr>currentKey := key (ls ! i), processed := i + 1\<rparr>, AwaitAdd i 3)"
    by (simp add: loop_head_def)
  obtain n1 st1 where item:
    "run n1 u ls (st\<lparr>currentKey := key (ls ! i), processed := i + 1\<rparr>, AwaitAdd i 3)
       = (st1, SleepItem i)"
    and sj: "same_job (st\<lparr>currentKey := key (ls ! i), processed := i + 1\<rparr>) st1"
    using item_completes [of 3] by force
  obtain n2 where sleep: "run n2 u ls (st1, SleepItem i) = loop_head ls (Suc i) st1"
    using item_sleep_completes by blast
  from sj Suc.prems have st1: "running st1" "processed st1 = Suc i" "total st1 = total st"
    "error st1 = error st"
    by (simp_all add: same_job_def)
  from Suc.hyps(2) have "d = length ls - Suc i" by simp
  from Suc.hyps(1) [OF this st1(1) st1(2)] lt
  obtain n3 st' where rest: "run n3 u ls (loop_head ls (Suc i) st1) = (st', Finished)"
    and fin: "processed st' = length ls" "total st' = total st1" "\<not> running st'"
      "currentKey st' = Some ''Complete''" "error st' = error st1"
    by auto
  from head item sleep rest
  have "run (n1 + (n2 + n3)) u ls (loop_head ls i st) = (st', Finished)"
    by (simp add: run_add)
  with fin st1 show ?case
    by (intro exI [of _ "n1 + (n2 + n3)"] exI [of _ st']) simp
qed

lemma restore_completes:
  assumes "list_all has_key ls"
  shows "\<exists>n st'. run n u ls (loop_head ls 0 (reset_status (length ls))) = (st', Finished)
           \<and> processed st' = length ls \<and> total st' = length ls \<and> \<not> running st'
           \<and> currentKey st' = Some ''Complete'' \<and> error st' = None"
  using loop_completes [OF assms, of "reset_status (length ls)" 0 u]
  by (simp add: reset_status_def)

lemma wipe_then_loop:
  assumes "u AwaitWipeKeys = Resolved ok1 m1" and "u AwaitWipeUsers = Resolved ok2 m2"
  shows "run 4 u ls (st, AwaitWipeKeys) = loop_head ls 0 st"
  using assms by (simp add: answer_def eval_nat_numeral)


lemma resumes_inputs: "resumes ls c (inputs n u ls c) = Some (run n u ls c)"
  by (induction n arbitrary: c) (auto split: option.splits)

lemma exec_resumes:
  assumes "k < length (workers sv)"
    and "resumes (licenses (workers sv ! k)) (restoreStatus sv, pc (workers sv ! k)) xs = Some (st', p')"
  shows "exec sv (map (Resume k) xs) =
           Some (sv\<lparr>restoreStatus := st', workers := (workers sv)[k := (workers sv ! k)\<lparr>pc := p'\<rparr>]\<rparr>)"
  using assms
proof (induction xs arbitrary: sv)
  case Nil
  then have "st' = restoreStatus sv" "p' = pc (workers sv ! k)"
    by simp_all
  then show ?case by simp
next
  case (Cons x xs)
  let ?w = "workers sv ! k"
  from Cons.prems(2) obtain st1 p1 where
    r1: "resume (licenses ?w) (pc ?w) x (restoreStatus sv) = Some (st1, p1)"
    and rest: "resumes (licenses ?w) (st1, p1) xs = Some (st', p')"
    by (auto split: option.splits)
  let ?sv1 = "sv\<lparr>restoreStatus := st1, workers := (workers sv)[k := ?w\<lparr>pc := p1\<rparr>]\<rparr>"
  from r1 Cons.prems(1) have s1: "step sv (Resume k x) = Some ?sv1"
    by (simp add: resume_worker_def)
  from Cons.prems(1) rest have
    "exec ?sv1 (map (Resume k) xs) =
       Some (?sv1\<lparr>restoreStatus := st',
                   workers := (workers ?sv1)[k := (workers ?sv1 ! k)\<lparr>pc := p'\<rparr>]\<rparr>)"
    by (intro Cons.IH) simp_all
  with s1 Cons.prems(1) show ?case by simp
qed

lemma exec_run:
  assumes "k < length (workers sv)"
  shows "exec sv (map (Resume k)
            (inputs n u (licenses (workers sv ! k)) (restoreStatus sv, pc (workers sv ! k)))) =
         Some (sv\<lparr>restoreStatus := fst (run n u (licenses (workers sv ! k))
                                        (restoreStatus sv, pc (workers sv ! k))),
                  workers := (workers sv)[k := (workers sv ! k)
                    \<lparr>pc := snd (run n u (licenses (workers sv ! k))
                                 (restoreStatus sv, pc (workers sv ! k)))\<rparr>]\<rparr>)"
  by (rule exec_resumes [OF assms]) (simp add: resumes_inputs)

lemma post_restore_accepted:
  assumes "connected sv" and "\<not> running (restoreStatus sv)"
  shows "post_restore (Array ls) True sv =
           (RestoreStarted (length ls),
            sv\<lparr>restoreStatus := reset_status (length ls)\<lparr>currentKey := Some ''Wiping database...''\<rparr>,
               workers := workers sv @ [\<lparr>licenses = ls, pc = AwaitWipeKeys\<rparr>]\<rparr>)"
    and "post_restore (Array ls) False sv =
           (RestoreStarted (length ls),
            sv\<lparr>restoreStatus := fst (loop_head ls 0 (reset_status (length ls))),
               workers := workers sv @
                 [\<lparr>licenses = ls, pc = snd (loop_head ls 0 (reset_status (length ls)))\<rparr>]\<rparr>)"
  using assms by (simp_all add: post_restore_def Let_def split_beta)

section \<open>The wipe before a restore\<close>

text \<open>
  Against C4 as stated: the first wipe request fails to decode, its promise rejects, and the
  handler's \<open>catch\<close> ends the job with no item processed.
\<close>

theorem rejected_wipe_aborts_restore:
  "exec (startup (Some ''sellerkey''))
     [Restore (Array [lic_a, lic_b]) True,
      Resume 0 (Response (Rejected ''Invalid response: <html>''))] =
   Some \<lparr>SELLER_KEY = Some ''sellerkey'',
        restoreStatus = \<lparr>running = False, total = 2, processed = 0, success = 0, skipped = 0,
          failed = 0, currentKey = Some ''Wiping database...'',
          error = Some ''Invalid response: <html>''\<rparr>,
        workers = [\<lparr>licenses = [lic_a, lic_b], pc = Finished\<rparr>]\<rparr>"
  by (simp add: model_defs example_facts)

text \<open>
  Claim C4. When the wipe is requested and both wipe requests resolve, whatever their
  replies say (also \<open>success: false\<close>), the job is not aborted: handled alone and with records
  that have keys, the handler comes to its end with every item processed, \<open>processed = total\<close>
  the length of the list, and no error stored. A wipe request that rejects (a transport error,
  or a body that does not decode) ends the job at once: \<open>running\<close> false, the message in
  \<open>error\<close>, no item reached.
\<close>

theorem wipe_failure_reply_does_not_abort:
  "(list_all has_key ls \<and> upstream AwaitWipeKeys = Resolved ok1 m1
      \<and> upstream AwaitWipeUsers = Resolved ok2 m2
      \<longrightarrow> (\<exists>n st'. run n upstream ls
                 (reset_status (length ls)\<lparr>currentKey := Some ''Wiping database...''\<rparr>,
                  AwaitWipeKeys) = (st', Finished)
              \<and> processed st' = length ls \<and> total st' = length ls \<and> error st' = None
              \<and> currentKey st' = Some ''Complete'' \<and> \<not> running st'))
   \<and> (upstream' AwaitWipeKeys = Rejected e
      \<longrightarrow> run (Suc n) upstream' ls (st, AwaitWipeKeys)
            = (st\<lparr>running := False, error := Some e\<rparr>, Finished))
   \<and> (upstream'' AwaitWipeKeys = Resolved ok m \<and> upstream'' AwaitWipeUsers = Rejected e
      \<longrightarrow> run (Suc (Suc (Suc n))) upstream'' ls (st, AwaitWipeKeys)
            = (st\<lparr>running := False, error := Some e\<rparr>, Finished))"
proof -
  let ?st0 = "reset_status (length ls)\<lparr>currentKey := Some ''Wiping database...''\<rparr>"
  have goes_on: "\<exists>n st'. run n upstream ls (?st0, AwaitWipeKeys) = (st', Finished)
      \<and> processed st' = length ls \<and> total st' = length ls \<and> error st' = None
      \<and> currentKey st' = Some ''Complete'' \<and> \<not> running st'"
    if keys: "list_all has_key ls" and r1: "upstream AwaitWipeKeys = Resolved ok1 m1"
      and r2: "upstream AwaitWipeUsers = Resolved ok2 m2"
  proof -
    from loop_completes [OF keys, of ?st0 0 upstream]
    obtain n st' where "run n upstream ls (loop_head ls 0 ?st0) = (st', Finished)"
      and "processed st' = length ls" "total st' = length ls" "error st' = None"
        "currentKey st' = Some ''Complete''" "\<not> running st'"
      by (auto simp: reset_status_def)
    with wipe_then_loop [OF r1 r2, of ls ?st0]
    have "run (4 + n) upstream ls (?st0, AwaitWipeKeys) = (st', Finished)"
      by (simp only: run_add)
    with \<open>processed st' = length ls\<close> \<open>total st' = length ls\<close> \<open>error st' = None\<close>
      \<open>currentKey st' = Some ''Complete''\<close> \<open>\<not> running st'\<close>
    show ?thesis by blast
  qed
  have first: "run (Suc n) upstream' ls (st, AwaitWipeKeys)
      = (st\<lparr>running := False, error := Some e\<rparr>, Finished)"
    if "upstream' AwaitWipeKeys = Rejected e"
    using that by (simp add: answer_def catch_handler_def run_stuck)
  have second: "run (Suc (Suc (Suc n))) upstream'' ls (st, AwaitWipeKeys)
      = (st\<lparr>running := False, error := Some e\<rparr>, Finished)"
    if "upstream'' AwaitWipeKeys = Resolved ok m" "upstream'' AwaitWipeUsers = Rejected e"
    using that by (simp add: answer_def catch_handler_def run_stuck)
  from goes_on first second show ?thesis
    by blast
qed


theorem wipe_failure_reply_does_not_abort_example:
  "(\<exists>n st'. run n failing_wipe [lic_a, lic_b]
      (reset_status 2\<lparr>currentKey := Some ''Wiping database...''\<rparr>, AwaitWipeKeys) = (st', Finished)
    \<and> processed st' = 2 \<and> total st' = 2 \<and> error st' = None
    \<and> currentKey st' = Some ''Complete'' \<and> \<not> running st')
   \<and> run 1 rejecting_wipe [lic_a, lic_b]
      (reset_status 2\<lparr>currentKey := Some ''Wiping database...''\<rparr>, AwaitWipeKeys) =
     (\<lparr>running = False, total = 2, processed = 0, success = 0, skipped = 0, failed = 0,
        currentKey = Some ''Wiping database...'', error = Some ''connect ECONNREFUSED''\<rparr>, Finished)
   \<and> run 3 rejecting_second_wipe [lic_a, lic_b]
      (reset_status 2\<lparr>currentKey := Some ''Wiping database...''\<rparr>, AwaitWipeKeys) =
     (\<lparr>running = False, total = 2, processed = 0, success = 0, skipped = 0, failed = 0,
        currentKey = Some ''Wiping database...'', error = Some ''connect ECONNREFUSED''\<rparr>, Finished)"
proof -
  let ?st = "reset_status 2\<lparr>currentKey := Some ''Wiping database...''\<rparr>"
  have h1: "list_all has_key [lic_a, lic_b]
      \<and> failing_wipe AwaitWipeKeys = Resolved False (Some ''Seller key is invalid'')
      \<and> failing_wipe AwaitWipeUsers = Resolved False (Some ''Seller key is invalid'')"
    by (simp add: failing_wipe_def has_key_def lic_a_def lic_b_def)
  have h2: "rejecting_wipe AwaitWipeKeys = Rejected ''connect ECONNREFUSED''"
    by (simp add: rejecting_wipe_def)
  have h3: "rejecting_second_wipe AwaitWipeKeys
        = Resolved True (Some ''Successfully deleted all licenses'')
      \<and> rejecting_second_wipe AwaitWipeUsers = Rejected ''connect ECONNREFUSED''"
    by (simp add: rejecting_second_wipe_def)
  have eq: "?st\<lparr>running := False, error := Some ''connect ECONNREFUSED''\<rparr> =
      \<lparr>running = False, total = 2, processed = 0, success = 0, skipped = 0, failed = 0,
       currentKey = Some ''Wiping database...'', error = Some ''connect ECONNREFUSED''\<rparr>"
    by (simp add: reset_status_def)
  have len: "length [lic_a, lic_b] = 2" "Suc 0 = 1" "Suc (Suc 1) = 3"
    by simp_all
  from h1 h2 h3 wipe_failure_reply_does_not_abort
    [where ls = "[lic_a, lic_b]" and upstream = failing_wipe and ?ok1.0 = False
      and ?m1.0 = "Some ''Seller key is invalid''" and ?ok2.0 = False
      and ?m2.0 = "Some ''Seller key is invalid''"
      and upstream' = rejecting_wipe and e = "''connect ECONNREFUSED''" and n = 0
      and st = ?st and upstream'' = rejecting_second_wipe and ok = True
      and m = "Some ''Successfully deleted all licenses''"]
  show ?thesis
    unfolding len eq by blast
qed

section \<open>Snapshots\<close>

text \<open>
  With one handler alive at a time the snapshot keeps its bounds: \<open>job_inv\<close> holds when a
  job starts, every resumption keeps it, the stop handler and a rejected start do not touch
  what it speaks of, and it gives \<open>success + skipped + failed \<le> processed \<le> total\<close>.
\<close>

lemma job_inv_bounds:
  "job_inv ls p st \<Longrightarrow> counted st \<le> processed st \<and> processed st \<le> total st"
  by (cases p) auto

lemma loop_head_inv:
  assumes "total st = length ls" and "processed st = i" and "counted st \<le> i" and "i \<le> length ls"
    and "loop_head ls i st = (st', p')"
  shows "job_inv ls p' st'"
  using assms
  by (auto simp: loop_head_def finish_def catch_handler_def counted_def
      split: if_splits sum.splits)

lemma on_result_inv:
  assumes "job_inv ls (AwaitAdd i r) st" and "on_result i r ok m st = (st', p')"
  shows "job_inv ls p' st'"
  using assms
  by (auto simp: on_result_def Let_def counted_def split: if_splits option.splits)

lemma after_item_sleep_inv:
  assumes "job_inv ls (SleepItem i) st" and "after_item_sleep ls i st = (st', p')"
  shows "job_inv ls p' st'"
proof (cases "(i + 1) mod 20 = 0")
  case True
  with assms show ?thesis
    by (auto simp: after_item_sleep_def)
next
  case False
  with assms(2) have "loop_head ls (Suc i) st = (st', p')"
    by (simp add: after_item_sleep_def)
  with assms(1) show ?thesis
    by (intro loop_head_inv [of st ls "Suc i"]) auto
qed

lemma after_error_sleep_inv:
  assumes "job_inv ls (SleepError i r) st" and "after_error_sleep i r st = (st', p')"
  shows "job_inv ls p' st'"
  using assms
  by (auto simp: after_error_sleep_def while_head_def counted_def split: if_splits)

lemma resume_inv:
  assumes "job_inv ls p st" and "resume ls p x st = Some (st', p')"
  shows "job_inv ls p' st'"
proof (cases p)
  case AwaitWipeKeys
  show ?thesis
  proof (cases x)
    case Timeout
    with assms AwaitWipeKeys show ?thesis by simp
  next
    case (Response out)
    with assms AwaitWipeKeys show ?thesis
      by (cases out) (auto simp: catch_handler_def counted_def)
  qed
next
  case SleepAfterWipeKeys
  with assms show ?thesis
    by (cases x) auto
next
  case AwaitWipeUsers
  show ?thesis
  proof (cases x)
    case Timeout
    with assms AwaitWipeUsers show ?thesis by simp
  next
    case (Response out)
    with assms AwaitWipeUsers show ?thesis
      by (cases out) (auto simp: catch_handler_def counted_def)
  qed
next
  case SleepAfterWipeUsers
  with assms have "loop_head ls 0 st = (st', p')"
    by (cases x) auto
  with assms(1) SleepAfterWipeUsers show ?thesis
    by (intro loop_head_inv [of st ls 0]) auto
next
  case (AwaitAdd i r)
  show ?thesis
  proof (cases x)
    case Timeout
    with assms AwaitAdd show ?thesis by simp
  next
    case (Response out)
    with assms AwaitAdd show ?thesis
      by (cases out) (auto intro: on_result_inv [of ls i r st])
  qed
next
  case (SleepRateLimit i r)
  with assms show ?thesis
    by (cases x) (auto simp: while_head_def)
next
  case (SleepError i r)
  with assms show ?thesis
    by (cases x) (auto intro: after_error_sleep_inv [of ls i r st])
next
  case (SleepItem i)
  with assms show ?thesis
    by (cases x) (auto intro: after_item_sleep_inv [of ls i st])
next
  case (SleepBatch i)
  with assms have "loop_head ls (Suc i) st = (st', p')"
    by (cases x) auto
  with assms(1) SleepBatch show ?thesis
    by (intro loop_head_inv [of st ls "Suc i"]) auto
next
  case Finished
  with assms show ?thesis by simp
qed

lemma server_invI:
  assumes "job_inv ls p (restoreStatus sv)"
    and "\<And>k. live sv k \<Longrightarrow> licenses (workers sv ! k) = ls \<and> pc (workers sv ! k) = p"
    and "\<And>k j. live sv k \<Longrightarrow> live sv j \<Longrightarrow> j = k"
  shows "server_inv sv"
  unfolding server_inv_def
  using assms job_inv_bounds [OF assms(1)] by metis

lemma server_inv_job:
  assumes "server_inv sv" and "live sv k"
  shows "job_inv (licenses (workers sv ! k)) (pc (workers sv ! k)) (restoreStatus sv)"
  using assms unfolding server_inv_def by blast

lemma server_inv_one:
  assumes "server_inv sv" and "live sv k" and "live sv j"
  shows "j = k"
  using assms unfolding server_inv_def by blast

lemma server_inv_bounds:
  assumes "server_inv sv"
  shows "counted (restoreStatus sv) \<le> processed (restoreStatus sv)"
    and "processed (restoreStatus sv) \<le> total (restoreStatus sv)"
  using assms unfolding server_inv_def by blast+

lemma server_inv_startup: "server_inv (startup k)"
  unfolding server_inv_def
  by (simp add: live_def startup_def initial_status_def counted_def)

lemma job_inv_cong:
  assumes "total st' = total st" and "processed st' = processed st" and "counted st' = counted st"
  shows "job_inv ls p st' = job_inv ls p st"
  using assms by (cases p) simp_all

lemma live_status [simp]: "live (sv\<lparr>restoreStatus := st'\<rparr>) k = live sv k"
  by (simp add: live_def)

lemma server_inv_status:
  assumes "server_inv sv" and "total st' = total (restoreStatus sv)"
    and "processed st' = processed (restoreStatus sv)"
    and "counted st' = counted (restoreStatus sv)"
  shows "server_inv (sv\<lparr>restoreStatus := st'\<rparr>)"
proof -
  have eq: "job_inv ls p st' = job_inv ls p (restoreStatus sv)" for ls p
    using assms(2-) by (rule job_inv_cong)
  have "counted st' \<le> processed st'" "processed st' \<le> total st'"
    using server_inv_bounds [OF assms(1)] assms(2-) by simp_all
  moreover have "job_inv (licenses (workers sv ! k)) (pc (workers sv ! k)) st'" if "live sv k" for k
    using server_inv_job [OF assms(1) that] by (simp add: eq)
  moreover have "j = k" if "live sv k" "live sv j" for k j
    using server_inv_one [OF assms(1) that] .
  ultimately show ?thesis
    unfolding server_inv_def by simp
qed

lemma server_inv_flags:
  assumes "server_inv sv"
  shows "server_inv (sv\<lparr>restoreStatus := (restoreStatus sv)\<lparr>running := b\<rparr>\<rparr>)"
    and "server_inv (sv\<lparr>restoreStatus := catch_handler msg (restoreStatus sv)\<rparr>)"
  by (rule server_inv_status [OF assms]; simp add: counted_def catch_handler_def)+

lemma server_inv_start:
  assumes "server_inv sv" and "idle sv" and "connected sv" and "\<not> running (restoreStatus sv)"
  shows "server_inv (snd (post_restore (Array ls) w sv))"
proof -
  let ?st0 = "reset_status (length ls)"
  obtain st1 p1 where first:
    "(if w then (?st0\<lparr>currentKey := Some ''Wiping database...''\<rparr>, AwaitWipeKeys)
      else loop_head ls 0 ?st0) = (st1, p1)"
    by (cases "if w then (?st0\<lparr>currentKey := Some ''Wiping database...''\<rparr>, AwaitWipeKeys)
      else loop_head ls 0 ?st0")
  have inv1: "job_inv ls p1 st1"
  proof (cases w)
    case True
    with first show ?thesis
      by (auto simp: reset_status_def counted_def)
  next
    case False
    with first have "loop_head ls 0 ?st0 = (st1, p1)" by simp
    then show ?thesis
      by (rule loop_head_inv [rotated -1]) (simp_all add: reset_status_def counted_def)
  qed
  let ?sv' = "sv\<lparr>restoreStatus := st1, workers := workers sv @ [\<lparr>licenses = ls, pc = p1\<rparr>]\<rparr>"
  from assms(3,4) first have post: "snd (post_restore (Array ls) w sv) = ?sv'"
    by (simp add: post_restore_def Let_def)
  from assms(2) have fin: "pc (workers sv ! j) = Finished" if "j < length (workers sv)" for j
    using that by (simp add: idle_def list_all_length)
  have only: "k = length (workers sv)" if "live ?sv' k" for k
    using that fin [of k] by (auto simp: live_def nth_append less_Suc_eq)
  have "server_inv ?sv'"
  proof (rule server_invI [of ls p1])
    show "job_inv ls p1 (restoreStatus ?sv')"
      using inv1 by simp
    show "licenses (workers ?sv' ! k) = ls \<and> pc (workers ?sv' ! k) = p1" if "live ?sv' k" for k
      using only [OF that] by simp
    show "j = k" if "live ?sv' k" "live ?sv' j" for k j
      using only [OF that(1)] only [OF that(2)] by simp
  qed
  with post show ?thesis by simp
qed

lemma server_inv_resume:
  assumes "server_inv sv" and "resume_worker k x sv = Some sv'"
  shows "server_inv sv'"
proof -
  from assms(2) have k: "k < length (workers sv)"
    by (auto simp: resume_worker_def split: if_splits)
  let ?w = "workers sv ! k"
  from assms(2) k obtain st' p' where
    res: "resume (licenses ?w) (pc ?w) x (restoreStatus sv) = Some (st', p')"
    and sv': "sv' = sv\<lparr>restoreStatus := st', workers := (workers sv)[k := ?w\<lparr>pc := p'\<rparr>]\<rparr>"
    by (auto simp: resume_worker_def split: option.splits)
  from res have "pc ?w \<noteq> Finished"
    by auto
  with k have lk: "live sv k"
    by (simp add: live_def)
  from resume_inv [OF server_inv_job [OF assms(1) lk] res]
  have inv': "job_inv (licenses ?w) p' st'" .
  have only: "j = k" if "live sv' j" for j
  proof (rule ccontr)
    assume "j \<noteq> k"
    with that have "live sv j"
      by (simp add: live_def sv')
    from server_inv_one [OF assms(1) lk this] \<open>j \<noteq> k\<close> show False by simp
  qed
  show ?thesis
  proof (rule server_invI [of "licenses ?w" p'])
    show "job_inv (licenses ?w) p' (restoreStatus sv')"
      using inv' by (simp add: sv')
    show "licenses (workers sv' ! j) = licenses ?w \<and> pc (workers sv' ! j) = p'" if "live sv' j" for j
      using only [OF that] k by (simp add: sv')
    show "j = i" if "live sv' i" "live sv' j" for i j
      using only [OF that(1)] only [OF that(2)] by simp
  qed
qed

lemma server_inv_step:
  assumes "server_inv sv" and "exclusive sv [e]" and "step sv e = Some sv'"
  shows "server_inv sv'"
proof (cases e)
  case (Restore body w)
  show ?thesis
  proof (cases "accepted body sv")
    case True
    with assms(2) Restore have "idle sv" by simp
    with True assms(1,3) Restore show ?thesis
      by (auto simp: accepted_def split: licenses_body.splits intro: server_inv_start)
  next
    case False
    with assms(3) Restore have "sv' = sv\<lparr>restoreStatus := catch_handler
        (if \<not> connected sv then ''Not connected''
         else if running (restoreStatus sv) then ''Restore already in progress''
         else ''Invalid licenses data'') (restoreStatus sv)\<rparr>"
      by (auto simp: accepted_def post_restore_def throw_early_def split: licenses_body.splits)
    with assms(1) show ?thesis
      by (simp add: server_inv_flags)
  qed
next
  case Stop
  with assms show ?thesis
    by (auto simp: post_restore_stop_def intro: server_inv_flags)
next
  case (Resume k x)
  with assms show ?thesis
    by (auto intro: server_inv_resume)
qed

lemma server_inv_exec:
  assumes "server_inv sv" and "exclusive sv evs" and "exec sv evs = Some sv'"
  shows "server_inv sv'"
  using assms
proof (induction evs arbitrary: sv)
  case Nil
  then show ?case by simp
next
  case (Cons e es)
  from Cons.prems(3) obtain sv1 where s1: "step sv e = Some sv1" and rest: "exec sv1 es = Some sv'"
    by (auto split: option.splits)
  from Cons.prems(2) s1 have "exclusive sv [e]" "exclusive sv1 es"
    by (auto split: event.splits)
  with Cons.prems(1) s1 rest Cons.IH show ?case
    by (blast intro: server_inv_step)
qed

text \<open>
  In every execution from startup in which a start is accepted only when the earlier handlers
  have ended, every snapshot has its counters below \<open>processed\<close> and \<open>processed\<close> below
  \<open>total\<close>; and no resumption of a handler, in any execution, lowers a counter.
\<close>

lemma exclusive_snapshot_bounds:
  assumes "exclusive (startup k) evs" and "exec (startup k) evs = Some sv"
  shows "success (restoreStatus sv) + skipped (restoreStatus sv) + failed (restoreStatus sv)
           \<le> processed (restoreStatus sv)
       \<and> processed (restoreStatus sv) \<le> total (restoreStatus sv)"
  using server_inv_exec [OF server_inv_startup assms]
  by (simp add: server_inv_def counted_def)

lemma resume_counters_grow:
  assumes "resume ls p x st = Some (st', p')"
  shows "success st \<le> success st' \<and> skipped st \<le> skipped st' \<and> failed st \<le> failed st'"
  using assms
  by (cases "(ls, p, x, st)" rule: resume.cases)
     (auto simp: loop_head_def on_result_def Let_def after_error_sleep_def while_head_def
        after_item_sleep_def finish_def catch_handler_def
        split: if_splits sum.splits option.splits)


text \<open>The cancelled job above is such an execution; the restart after a stop below is not.\<close>

lemma exclusive_stopped_trace:
  "exclusive (startup (Some ''sellerkey''))
     [Restore (Array [lic_a, lic_b]) False, Stop,
      Resume 0 (Response (Resolved True None)), Resume 0 Timeout]"
  by (simp add: idle_def accepted_def model_defs example_facts)

lemma not_exclusive_restart:
  "\<not> exclusive (startup (Some ''sellerkey''))
     [Restore (Array [lic_a, lic_b, lic_a]) False, Stop, Restore (Array [lic_b]) False,
      Resume 0 (Response (Resolved True None)), Resume 0 Timeout]"
  by (simp add: idle_def accepted_def model_defs example_facts)

text \<open>
  Claim C3. Within one job the counters stay below \<open>processed\<close> and \<open>processed\<close> below
  \<open>total\<close>. The stop handler clears \<open>running\<close> at once, while the handler of the job is still
  suspended; a start request that arrives before that handler wakes is accepted and resets
  the snapshot, and the old handler then goes on writing into the new snapshot. Here a job
  of three items is stopped while its first request is pending, a job of one item is
  started, and the first job's handler resumes: it counts its item in the new snapshot, finds
  \<open>running\<close> true again, goes on to its second item and sets \<open>processed\<close> to 2, above the
  \<open>total\<close> of 1.
\<close>

theorem restart_after_stop_breaks_invariant:
  "exec (startup (Some ''sellerkey''))
     [Restore (Array [lic_a, lic_b, lic_a]) False, Stop, Restore (Array [lic_b]) False,
      Resume 0 (Response (Resolved True None)), Resume 0 Timeout] =
   Some \<lparr>SELLER_KEY = Some ''sellerkey'',
        restoreStatus = \<lparr>running = True, total = 1, processed = 2, success = 1, skipped = 0,
          failed = 0, currentKey = Some ''Soryn-CCCCC-1month'', error = None\<rparr>,
        workers = [\<lparr>licenses = [lic_a, lic_b, lic_a], pc = AwaitAdd 1 3\<rparr>,
                   \<lparr>licenses = [lic_b], pc = AwaitAdd 0 3\<rparr>]\<rparr>"
  by (simp add: model_defs example_facts)

section \<open>The backup parser\<close>

lemma trim_lines:
  "trim border_line = border_line" "trim source_border_line = source_border_line"
  "trim header_line = header_line" "trim data_line = data_line"
  by (simp_all add: trim_def isSpace_def border_line_def source_border_line_def
      border_literals_def border_prefix_def header_line_def data_line_def)

lemma skip_lines:
  "skip_line header_line" "\<not> skip_line border_line" "skip_line source_border_line"
  "\<not> skip_line data_line"
  by (simp_all add: skip_line_def border_literals_def border_prefix_def string_defs
      border_line_def source_border_line_def header_line_def data_line_def)

lemma split_data_line: "split_spaces data_line = [''Soryn-AAAAA-BBBBB'', ''Used'', ''2'']"
  by (simp add: data_line_def isSpace_def)

lemma split_border_line: "split_spaces border_line = [border_line]"
  by (simp add: border_line_def isSpace_def)

lemma parse_data_line: "parse_line data_line = Some lic_a"
  by (simp add: parse_line_def split_data_line trim_def isSpace_def string_defs all_digits_def
      isDigit_def parseDurationFromKeyName_def lic_a_def)

lemma parse_border_line: "parse_line border_line = None"
  by (simp add: parse_line_def split_border_line trim_lines) (simp add: border_line_def string_defs)

lemma lines_of_table:
  "split_newline (table_text border_line) = [border_line, header_line, data_line, border_line]"
  "split_newline (table_text source_border_line) =
     [source_border_line, header_line, data_line, source_border_line]"
  by (simp_all add: table_text_def border_line_def source_border_line_def border_literals_def
      border_prefix_def header_line_def data_line_def)

lemma lines_of_line:
  "split_newline border_line = [border_line]" "split_newline header_line = [header_line]"
  "split_newline data_line = [data_line]"
  by (simp_all add: border_line_def header_line_def data_line_def)

text \<open>
  Claim C8. A table of a border line, the header line \<open>Key   Status   Level\<close>, the data line
  \<open>Soryn-AAAAA-BBBBB  Used  2\<close> and a border line parses to the one record with that key,
  status \<open>Used\<close> and level \<open>2\<close> (and the duration the key gives, 999999999), with a border of
  box-drawing characters and with a border of the source's literals alike. Alone, the border
  and the header give no record and the data line gives that one.
\<close>

theorem parseBackupText_table:
  "parseBackupText (table_text border_line) = [lic_a]
   \<and> parseBackupText (table_text source_border_line) = [lic_a]
   \<and> parseBackupText border_line = []
   \<and> parseBackupText header_line = []
   \<and> parseBackupText data_line = [lic_a]
   \<and> lic_a = \<lparr>key = Some ''Soryn-AAAAA-BBBBB'', status = Some ''Used'', level = Some ''2'',
               duration = Some 999999999\<rparr>
   \<and> data_line = ''Soryn-AAAAA-BBBBB  Used  2'' \<and> header_line = ''Key   Status   Level''"
  by (simp add: parseBackupText_def lines_of_table lines_of_line trim_lines skip_lines
      parse_data_line parse_border_line Let_def)
     (simp add: lic_a_def data_line_def header_line_def)

text \<open>
  Claim C9. When the content parses to an object, the answer has format \<open>json\<close> and carries
  the object's \<open>licenses\<close> property if that is truthy, else its \<open>keys\<close> property if that is
  truthy, else an empty list. The value is passed on as it is: no record is taken out of it.
\<close>

theorem parse_backup_json_object:
  assumes "JSON_parse content = Some (JObj props)"
  shows "(map_of props ''licenses'' = Some v \<and> truthy (Json v)
            \<longrightarrow> post_parse_backup JSON_parse content = FormatJson (Json v))
       \<and> (falsy_property props ''licenses'' \<and> map_of props ''keys'' = Some v \<and> truthy (Json v)
            \<longrightarrow> post_parse_backup JSON_parse content = FormatJson (Json v))
       \<and> (falsy_property props ''licenses'' \<and> falsy_property props ''keys''
            \<longrightarrow> post_parse_backup JSON_parse content = FormatJson (Json (JArr [])))"
  using assms
  by (auto simp add: post_parse_backup_def licenses_of_json_def falsy_property_def
      split: option.splits)

theorem parse_backup_json_object_example:
  "post_parse_backup (\<lambda>c. Some (JObj [(''licenses'', JArr [json_with_key])])) ''{}''
     = FormatJson (Json (JArr [json_with_key]))
   \<and> post_parse_backup (\<lambda>c. Some (JObj [(''licenses'', JNull), (''keys'', JArr [json_with_key])])) ''{}''
     = FormatJson (Json (JArr [json_with_key]))
   \<and> post_parse_backup (\<lambda>c. Some (JObj [(''licenses'', JNull), (''keys'', JStr [])])) ''{}''
     = FormatJson (Json (JArr []))"
  using parse_backup_json_object
    [of "\<lambda>c. Some (JObj [(''licenses'', JArr [json_with_key])])" "''{}''"
        "[(''licenses'', JArr [json_with_key])]" "JArr [json_with_key]"]
    parse_backup_json_object
    [of "\<lambda>c. Some (JObj [(''licenses'', JNull), (''keys'', JArr [json_with_key])])" "''{}''"
        "[(''licenses'', JNull), (''keys'', JArr [json_with_key])]" "JArr [json_with_key]"]
    parse_backup_json_object
    [of "\<lambda>c. Some (JObj [(''licenses'', JNull), (''keys'', JStr [])])" "''{}''"
        "[(''licenses'', JNull), (''keys'', JStr [])]"]
  by (simp add: falsy_property_def)

text \<open>
  Against C9 as stated: the record without a key is in the answer.
\<close>

theorem json_record_without_key_kept:
  "post_parse_backup (\<lambda>c. Some backup_document) ''{}''
     = FormatJson (Json (JArr [json_with_key, json_without_key]))
   \<and> json_without_key = JObj [(''status'', JStr ''Used''), (''level'', JStr ''2'')]"
  by (simp add: post_parse_backup_def licenses_of_json_def backup_document_def
      json_without_key_def)

text \<open>
  A document that is itself a list: \<open>json.keys\<close> is the array method of that name, which is
  truthy, so \<open>licenses\<close> is the method and not the list (and \<open>res.json\<close> leaves a property
  whose value is a function out of the body). A document \<open>null\<close> goes to the text parser.
\<close>

lemma parse_backup_json_array:
  "post_parse_backup (\<lambda>c. Some (JArr xs)) content = FormatJson ArrayPrototypeKeys"
  by (simp add: post_parse_backup_def licenses_of_json_def)

lemma parse_backup_json_null:
  "post_parse_backup (\<lambda>c. Some JNull) content = FormatText (parseBackupText content)"
  by (simp add: post_parse_backup_def licenses_of_json_def)

text \<open>A document that is a string, a number or a boolean gives the empty list.\<close>

lemma parse_backup_json_scalar:
  "post_parse_backup (\<lambda>c. Some (JStr t)) content = FormatJson (Json (JArr []))"
  "post_parse_backup (\<lambda>c. Some (JNum n)) content = FormatJson (Json (JArr []))"
  "post_parse_backup (\<lambda>c. Some (JBool b)) content = FormatJson (Json (JArr []))"
  by (simp_all add: post_parse_backup_def licenses_of_json_def)

end
